theory Spec2Isabelle
  imports Complex_Main
begin

section \<open>Values, errors and calendar arithmetic\<close>

text \<open>
  The program is \<^verbatim>\<open>AgriculturalSunAndWaterMetrics1.0.py\<close>. Its floats are modelled by the
  real numbers (exact arithmetic, so every statement below is about the formulas the code
  evaluates, not about rounding), its integers by \<open>int\<close>. An exception is a value of
  \<open>py_error\<close>; a function that can raise returns \<open>py_error + 'a\<close>, with \<open>Inl\<close> the exception.
\<close>

datatype py_error = TypeError | KeyError | ValueError | ZeroDivisionError

definition radians :: "real \<Rightarrow> real" where
  "radians d = d * pi / 180"

text \<open>
  \<^verbatim>\<open>datetime(year, month, day, hour, minute, second)\<close>: the naive timestamp the code builds
  for the solar position provider, which reads exactly these six fields. The constructor
  raises \<^verbatim>\<open>ValueError\<close> on a field out of range.
\<close>

record datetime =
  year :: int
  month :: int
  day :: int
  hour :: int
  minute :: int
  second :: int

definition is_leap :: "int \<Rightarrow> bool" where
  "is_leap y = (y mod 4 = 0 \<and> (y mod 400 = 0 \<or> y mod 100 \<noteq> 0))"

definition days_in_month :: "int \<Rightarrow> int \<Rightarrow> int" where
  "days_in_month y m =
     (if m = 2 then (if is_leap y then 29 else 28)
      else if m = 4 \<or> m = 6 \<or> m = 9 \<or> m = 11 then 30 else 31)"

definition days_before_year :: "int \<Rightarrow> int" where
  "days_before_year y = (y - 1) * 365 + (y - 1) div 4 - (y - 1) div 100 + (y - 1) div 400"

definition days_before_month :: "int \<Rightarrow> int \<Rightarrow> int" where
  "days_before_month y m = sum_list (map (days_in_month y) [1 .. m - 1])"

definition ymd2ord :: "int \<Rightarrow> int \<Rightarrow> int \<Rightarrow> int" where
  "ymd2ord y m d = days_before_year y + days_before_month y m + d"

definition mk_datetime :: "int \<Rightarrow> int \<Rightarrow> int \<Rightarrow> int \<Rightarrow> int \<Rightarrow> int \<Rightarrow> py_error + datetime" where
  "mk_datetime y mo d h mi s =
     (if 1 \<le> y \<and> y \<le> 9999 \<and> 1 \<le> mo \<and> mo \<le> 12 \<and> 1 \<le> d \<and> d \<le> days_in_month y mo
         \<and> 0 \<le> h \<and> h \<le> 23 \<and> 0 \<le> mi \<and> mi \<le> 59 \<and> 0 \<le> s \<and> s \<le> 59
      then Inr \<lparr>year = y, month = mo, day = d, hour = h, minute = mi, second = s\<rparr>
      else Inl ValueError)"

section \<open>Solar calculation functions\<close>

text \<open>
  \<^verbatim>\<open>a / math.tan(math.radians(d))\<close>. Python raises \<^verbatim>\<open>ZeroDivisionError\<close> when the float
  divisor is 0.0, and the float tangent of \<^verbatim>\<open>math.radians(d)\<close> is 0.0 only for \<open>d = 0\<close>: at
  180, 360, ... degrees (either sign) the float argument is not an exact multiple of \<open>pi\<close>
  and the float tangent is a non-zero number of magnitude about \<open>10\<^sup>-\<^sup>1\<^sup>6\<close>. So the quotient
  raises exactly at \<open>d = 0\<close>. At 90, 270, ... degrees (either sign) the real tangent has a
  pole, while the float tangent is a finite number of magnitude above \<open>10\<^sup>1\<^sup>6\<close>; the quotient
  is written \<open>a * cos / sin\<close>, whose value there is the limit 0 of the real quotient (the
  float quotient differs from it by less than \<open>10\<^sup>-\<^sup>1\<^sup>5 * \<bar>a\<bar>\<close>). At 180, 360, ... degrees, which
  no elevation angle reaches, the float quotient is a rounding artefact of magnitude above
  \<open>10\<^sup>1\<^sup>5 * \<bar>a\<bar>\<close> with no counterpart over the reals: the model returns 0 there, and no
  statement below depends on that value.
\<close>

definition div_by_tan :: "real \<Rightarrow> real \<Rightarrow> py_error + real" where
  "div_by_tan a d =
     (if d = 0 then Inl ZeroDivisionError
      else if sin (radians d) = 0 then Inr 0
      else Inr (a * cos (radians d) / sin (radians d)))"

text \<open>
  \<^verbatim>\<open>atmospheric_refraction\<close> (arcseconds). The four branches are tried in the source's
  order. In the second branch the elevation lies in \<open>(5, 85]\<close>, where the tangent is finite
  and positive, so its divisions do not raise; the division of the last branch is
  \<open>div_by_tan\<close>.
\<close>

definition atmospheric_refraction :: "real \<Rightarrow> py_error + real" where
  "atmospheric_refraction solar_elevation_angle_deg =
     (if solar_elevation_angle_deg > 85 then Inr 0
      else if solar_elevation_angle_deg > 5 then
        Inr (58.1 / tan (radians solar_elevation_angle_deg)
             - 0.07 / (tan (radians solar_elevation_angle_deg)) ^ 3
             + 0.000086 / (tan (radians solar_elevation_angle_deg)) ^ 5)
      else if solar_elevation_angle_deg > - 0.575 then
        Inr (1735 + solar_elevation_angle_deg * (- 518.2 + solar_elevation_angle_deg *
              (103.4 + solar_elevation_angle_deg * (- 12.79 + solar_elevation_angle_deg * 0.711))))
      else div_by_tan (- 20.772) solar_elevation_angle_deg)"

definition solar_position_adj :: "real \<Rightarrow> py_error + real" where
  "solar_position_adj solar_elevation_angle_deg =
     (case atmospheric_refraction solar_elevation_angle_deg of
        Inl err \<Rightarrow> Inl err
      | Inr arcsec \<Rightarrow>
          (let atmos_refraction_deg = arcsec / 3600
           in Inr (max 0.0000000001 (solar_elevation_angle_deg + atmos_refraction_deg))))"

section \<open>Shade calculation functions\<close>

text \<open>
  \<^verbatim>\<open>shadow_dimensions\<close>. Its two quotients by the tangent of the elevation are
  \<open>div_by_tan\<close>: they raise exactly when the elevation is 0.
\<close>

definition shadow_dimensions :: "real \<Rightarrow> real \<Rightarrow> real \<Rightarrow> real \<Rightarrow> real \<Rightarrow> real \<Rightarrow> py_error + real" where
  "shadow_dimensions height width tilt elevation_angle_deg solar_azimuth azimuth_blume =
     (let height_bottom = width - (height / 2 * cos (radians tilt));
          height_top = width + (height / 2 * cos (radians tilt))
      in case div_by_tan height_top elevation_angle_deg of
           Inl err \<Rightarrow> Inl err
         | Inr top_quotient \<Rightarrow>
             (case div_by_tan height_bottom elevation_angle_deg of
                Inl err \<Rightarrow> Inl err
              | Inr bottom_quotient \<Rightarrow>
                  (let length_shadow = top_quotient - bottom_quotient
                                       + (height * cos (radians tilt));
                       width_shadow = width * cos (radians (azimuth_blume - solar_azimuth))
                   in Inr (length_shadow * width_shadow))))"

text \<open>
  The structure azimuth of \<^verbatim>\<open>shade_coverage\<close>:
  \<^verbatim>\<open>azimuth_blume = min(max(azimuth_S, -max_rotation), max_rotation)\<close>.
\<close>

definition azimuth_blume :: "real \<Rightarrow> real \<Rightarrow> real" where
  "azimuth_blume azimuth_S max_rotation = min (max azimuth_S (- max_rotation)) max_rotation"

text \<open>
  \<^verbatim>\<open>shade_coverage\<close>. The solar position provider \<^verbatim>\<open>solar_angles_skyfield\<close> is an external
  ephemeris; it is the parameter \<open>sky\<close>, a function of latitude, longitude and the naive
  UTC timestamp, returning (elevation, azimuth) in degrees.
\<close>

definition shade_coverage ::
  "(real \<Rightarrow> real \<Rightarrow> datetime \<Rightarrow> real \<times> real) \<Rightarrow> real \<Rightarrow> real \<Rightarrow> int \<Rightarrow> real \<Rightarrow> real \<Rightarrow> real \<Rightarrow> real
     \<Rightarrow> int \<Rightarrow> real \<Rightarrow> int \<Rightarrow> int \<Rightarrow> int \<Rightarrow> int \<Rightarrow> py_error + real" where
  "shade_coverage sky lat lon local_year ground_area height width tilt local_hour max_rotation
       timezone local_month local_day local_minute =
     (let utc_hour = (local_hour - timezone) mod 24
      in case mk_datetime local_year local_month local_day utc_hour local_minute 0 of
           Inl err \<Rightarrow> Inl err
         | Inr dt_utc \<Rightarrow>
             (case sky lat lon dt_utc of
                (solarelevation, azimuth) \<Rightarrow>
                  (case solar_position_adj solarelevation of
                     Inl err \<Rightarrow> Inl err
                   | Inr elevation \<Rightarrow>
                       (let azimuth_S = 180 - azimuth
                        in case shadow_dimensions height width tilt elevation azimuth_S
                                  (azimuth_blume azimuth_S max_rotation) of
                             Inl err \<Rightarrow> Inl err
                           | Inr area_of_shadow \<Rightarrow>
                               (if ground_area = 0 then Inl ZeroDivisionError
                                else Inr (min 1 (area_of_shadow / ground_area)))))))"

section \<open>Sunrise and sunset\<close>

text \<open>
  The sunrise and sunset instants are timezone-aware local datetimes. The code reads their
  hour, minute, second and microsecond, replaces second and microsecond, adds timedeltas,
  compares them and subtracts them; it never reads their calendar date. An aware datetime
  is therefore modelled by its local wall-clock time, counted in microseconds since
  0001-01-01T00:00:00, and its UTC offset in microseconds. Adding a timedelta and
  \<^verbatim>\<open>replace\<close> act on the wall clock and keep the offset; comparison and subtraction of two
  aware datetimes are those of their UTC instants. The range limit of \<^verbatim>\<open>datetime\<close> (year
  9999) is not modelled.
\<close>

record aware =
  wall :: int
  utcoffset :: int

definition instant :: "aware \<Rightarrow> int" where
  "instant t = wall t - utcoffset t"

definition microsecond_of :: "aware \<Rightarrow> int" where
  "microsecond_of t = wall t mod 1000000"

definition second_of :: "aware \<Rightarrow> int" where
  "second_of t = (wall t div 1000000) mod 60"

definition minute_of :: "aware \<Rightarrow> int" where
  "minute_of t = (wall t div 60000000) mod 60"

definition hour_of :: "aware \<Rightarrow> int" where
  "hour_of t = (wall t div 3600000000) mod 24"

text \<open>\<^verbatim>\<open>t.replace(second=0, microsecond=0)\<close> and \<^verbatim>\<open>t + timedelta(microseconds=d)\<close>.\<close>

definition replace_second_microsecond :: "aware \<Rightarrow> aware" where
  "replace_second_microsecond t = t\<lparr>wall := wall t - second_of t * 1000000 - microsecond_of t\<rparr>"

definition plus_timedelta :: "aware \<Rightarrow> int \<Rightarrow> aware" where
  "plus_timedelta t d = t\<lparr>wall := wall t + d\<rparr>"

text \<open>
  \<^verbatim>\<open>datetime(year, month, day)\<close>, the naive local midnight of a date, as a wall-clock
  count; \<^verbatim>\<open>ValueError\<close> on an invalid date.
\<close>

definition midnight :: "int \<Rightarrow> int \<Rightarrow> int \<Rightarrow> py_error + int" where
  "midnight y mo d =
     (case mk_datetime y mo d 0 0 0 of
        Inl err \<Rightarrow> Inl err
      | Inr dt \<Rightarrow> Inr ((ymd2ord (year dt) (month dt) (day dt) - 1) * 86400000000))"

text \<open>
  Python's \<^verbatim>\<open>min(iterable, key=...)\<close>: \<^verbatim>\<open>ValueError\<close> on an empty sequence; otherwise the
  items are visited in order and the candidate is replaced only by an item whose key is
  strictly smaller.
\<close>

fun min_by_key :: "('a \<Rightarrow> int) \<Rightarrow> 'a \<Rightarrow> 'a list \<Rightarrow> 'a" where
  "min_by_key key best [] = best"
| "min_by_key key best (x # xs) = min_by_key key (if key x < key best then x else best) xs"

definition py_min :: "('a \<Rightarrow> int) \<Rightarrow> 'a list \<Rightarrow> py_error + 'a" where
  "py_min key xs = (case xs of [] \<Rightarrow> Inl ValueError | x # rest \<Rightarrow> Inr (min_by_key key x rest))"

text \<open>
  \<^verbatim>\<open>find_closest_sunrise_sunset\<close>. The timezone of the location is external: the parameter
  \<open>tz\<close> gives the UTC offset that \<^verbatim>\<open>tz.localize\<close> attaches to a naive wall-clock time.
\<close>

definition find_closest_sunrise_sunset ::
  "(int \<Rightarrow> int) \<Rightarrow> (aware \<times> aware) list \<Rightarrow> int \<Rightarrow> py_error + (aware \<times> aware)" where
  "find_closest_sunrise_sunset tz sunrise_sunset_pairs target_date =
     (let target_date_aware = \<lparr>wall = target_date, utcoffset = tz target_date\<rparr>
      in py_min (\<lambda>pair. \<bar>instant target_date_aware - instant (fst pair)\<bar>) sunrise_sunset_pairs)"

section \<open>Daily iteration\<close>

text \<open>
  The sampling loop of \<^verbatim>\<open>iterate_sunrise_to_sunset\<close>, with its two accumulators. \<open>sample\<close>
  is the call of \<^verbatim>\<open>shade_coverage\<close> at an hour and a minute; an exception it raises leaves
  the loop.
\<close>

function sample_loop ::
  "(int \<Rightarrow> int \<Rightarrow> py_error + real) \<Rightarrow> aware \<Rightarrow> aware \<Rightarrow> real \<Rightarrow> nat \<Rightarrow> py_error + (real \<times> nat)" where
  "sample_loop sample current_time sunset_rounded total_shade_coverage count =
     (if instant current_time \<le> instant sunset_rounded then
        (case sample (hour_of current_time) (minute_of current_time) of
           Inl err \<Rightarrow> Inl err
         | Inr shade_cover \<Rightarrow>
             sample_loop sample (plus_timedelta current_time 3600000000) sunset_rounded
               (total_shade_coverage + shade_cover) (count + 1))
      else Inr (total_shade_coverage, count))"
  by pat_completeness auto
termination
  by (relation "measure (\<lambda>(sample, current_time, sunset_rounded, total, count).
         nat (instant sunset_rounded - instant current_time + 1))")
     (auto simp: instant_def plus_timedelta_def)

definition iterate_sunrise_to_sunset ::
  "(real \<Rightarrow> real \<Rightarrow> datetime \<Rightarrow> real \<times> real) \<Rightarrow> (int \<Rightarrow> int) \<Rightarrow> (aware \<times> aware) list \<Rightarrow> int \<Rightarrow> int
     \<Rightarrow> real \<Rightarrow> real \<Rightarrow> int \<Rightarrow> real \<Rightarrow> real \<Rightarrow> real \<Rightarrow> real \<Rightarrow> real \<Rightarrow> int \<Rightarrow> py_error + real" where
  "iterate_sunrise_to_sunset sky tz sunrise_sunset_pairs mo d lat lon y ground_area height width
       tilt max_rotation timezone =
     (case midnight y mo d of
        Inl err \<Rightarrow> Inl err
      | Inr target_date \<Rightarrow>
          (case find_closest_sunrise_sunset tz sunrise_sunset_pairs target_date of
             Inl err \<Rightarrow> Inl err
           | Inr (sunrise, sunset) \<Rightarrow>
               (let sunrise_rounded =
                      plus_timedelta (replace_second_microsecond sunrise)
                        (if second_of sunrise \<noteq> 0 \<or> microsecond_of sunrise \<noteq> 0
                         then 60000000 else 0);
                    sunset_rounded = replace_second_microsecond sunset
                in case sample_loop
                          (\<lambda>h mi. shade_coverage sky lat lon y ground_area height width tilt h
                                     max_rotation timezone mo d mi)
                          sunrise_rounded sunset_rounded 0 0 of
                     Inl err \<Rightarrow> Inl err
                   | Inr (total_shade_coverage, count) \<Rightarrow>
                       Inr (if count \<noteq> 0 then total_shade_coverage / real count else 0))))"

section \<open>Evapotranspiration data\<close>

text \<open>
  An item of the ET series is a JSON object; the code reads its keys \<^verbatim>\<open>'time'\<close> and
  \<^verbatim>\<open>'et'\<close>, and \<^verbatim>\<open>water_saved\<close> tests whether \<^verbatim>\<open>'et'\<close> is present, so the value is optional.
  An item of the shade series is the dictionary built by \<^verbatim>\<open>iterate_through_year\<close>.
\<close>

record et_item =
  et_time :: string
  et :: "real option"

record shade_item =
  shade_time :: string
  shade :: real

text \<open>
  \<^verbatim>\<open>evapotranspiration\<close> returns the fetched data when it is truthy and \<^verbatim>\<open>None\<close> (after
  printing a message) otherwise: \<^verbatim>\<open>None\<close> from a failed fetch and an empty list are both
  falsy. The fetch \<^verbatim>\<open>get_et_data\<close> is external; its result is the argument.
\<close>

definition evapotranspiration :: "et_item list option \<Rightarrow> et_item list option" where
  "evapotranspiration fetched =
     (case fetched of None \<Rightarrow> None | Some et_data \<Rightarrow> if et_data = [] then None else Some et_data)"

text \<open>
  The last line of \<^verbatim>\<open>adjusted_evapotranspiration\<close>:
  \<^verbatim>\<open>list(map(lambda dm: dm[0]['et'] * (1 - dm[1]['shade']), zip(et_data, daily_shade)))\<close>.
  \<^verbatim>\<open>zip\<close> of \<^verbatim>\<open>None\<close> raises \<^verbatim>\<open>TypeError\<close>; \<^verbatim>\<open>zip\<close> stops at the shorter sequence;
  \<^verbatim>\<open>dm[0]['et']\<close> raises \<^verbatim>\<open>KeyError\<close> on an item without that key.
\<close>

fun adjust_pairs :: "(et_item \<times> shade_item) list \<Rightarrow> py_error + real list" where
  "adjust_pairs [] = Inr []"
| "adjust_pairs (dm # rest) =
     (case et (fst dm) of
        None \<Rightarrow> Inl KeyError
      | Some v \<Rightarrow>
          (case adjust_pairs rest of
             Inl err \<Rightarrow> Inl err
           | Inr vs \<Rightarrow> Inr (v * (1 - shade (snd dm)) # vs)))"

definition adjusted_evapotranspiration ::
  "et_item list option \<Rightarrow> shade_item list \<Rightarrow> py_error + real list" where
  "adjusted_evapotranspiration et_data daily_shade =
     (case et_data of
        None \<Rightarrow> Inl TypeError
      | Some items \<Rightarrow> adjust_pairs (zip items daily_shade))"

section \<open>Water savings\<close>

text \<open>
  \<^verbatim>\<open>sum\<close> adds from the left starting at 0. \<^verbatim>\<open>water_saved\<close> sums the \<^verbatim>\<open>'et'\<close> values of
  the items that have the key, sums the adjusted values, and returns the difference (the
  two \<^verbatim>\<open>print\<close> calls do not change the result).
\<close>

definition py_sum :: "real list \<Rightarrow> real" where
  "py_sum xs = foldl (+) 0 xs"

definition water_saved :: "et_item list \<Rightarrow> real list \<Rightarrow> real" where
  "water_saved et_data adjusted_et_values =
     (let et_annual = py_sum (map (\<lambda>item. the (et item)) (filter (\<lambda>item. et item \<noteq> None) et_data));
          adjusted_et_annual = py_sum adjusted_et_values
      in et_annual - adjusted_et_annual)"

section \<open>Specification-side definitions\<close>

text \<open>
  The nearest-pair query of the specification: index \<open>i\<close> is the first index of \<open>xs\<close> at
  which \<open>key\<close> is minimal.
\<close>

definition first_minimal :: "('a \<Rightarrow> int) \<Rightarrow> 'a list \<Rightarrow> nat \<Rightarrow> bool" where
  "first_minimal key xs i =
     (i < length xs \<and> (\<forall>j < length xs. key (xs ! i) \<le> key (xs ! j))
      \<and> (\<forall>j < i. key (xs ! i) < key (xs ! j)))"

text \<open>
  The biweekly calendar of 2022 used as a concrete example: pair \<open>k\<close> is day \<open>1 + 14 k\<close> of
  the year, sunrise at 07:30 and sunset at 17:00 local time, UTC offset of 8 hours west.
\<close>

definition biweekly_pair :: "int \<Rightarrow> aware \<times> aware" where
  "biweekly_pair k =
     (\<lparr>wall = (ymd2ord 2022 1 1 + 14 * k - 1) * 86400000000 + 7 * 3600000000 + 30 * 60000000,
       utcoffset = - 8 * 3600000000\<rparr>,
      \<lparr>wall = (ymd2ord 2022 1 1 + 14 * k - 1) * 86400000000 + 17 * 3600000000,
       utcoffset = - 8 * 3600000000\<rparr>)"

text \<open>
  A solar position provider used in concrete examples: it reports the same elevation and
  azimuth at every place and time.
\<close>

definition fixed_sun :: "real \<Rightarrow> real \<Rightarrow> real \<Rightarrow> real \<Rightarrow> datetime \<Rightarrow> real \<times> real" where
  "fixed_sun elevation azimuth lat lon dt_utc = (elevation, azimuth)"

text \<open>
  A timezone used in concrete examples: \<^verbatim>\<open>localize\<close> attaches the same UTC offset to every
  wall-clock time.
\<close>

definition fixed_offset :: "int \<Rightarrow> int \<Rightarrow> int" where
  "fixed_offset offset wall_clock = offset"

text \<open>
  The daily aggregation as the specification words it: round the sunrise up to the next
  whole minute unless it is exact, round the sunset down, take one sample per hour from the
  rounded sunrise through the rounded sunset inclusive, and average the samples (0 when
  there is none). \<open>collect\<close> gathers the samples in order and stops at the first exception.
\<close>

definition round_up_minute :: "aware \<Rightarrow> aware" where
  "round_up_minute t =
     t\<lparr>wall := (if wall t mod 60000000 = 0 then wall t else (wall t div 60000000 + 1) * 60000000)\<rparr>"

definition round_down_minute :: "aware \<Rightarrow> aware" where
  "round_down_minute t = t\<lparr>wall := (wall t div 60000000) * 60000000\<rparr>"

definition hourly_samples :: "aware \<Rightarrow> aware \<Rightarrow> aware list" where
  "hourly_samples first_t last_t =
     map (\<lambda>k. plus_timedelta first_t (int k * 3600000000))
       [0 ..< nat ((instant last_t - instant first_t) div 3600000000 + 1)]"

definition mean :: "real list \<Rightarrow> real" where
  "mean xs = (if xs = [] then 0 else sum_list xs / real (length xs))"

fun collect :: "(py_error + 'a) list \<Rightarrow> py_error + 'a list" where
  "collect [] = Inr []"
| "collect (r # rs) =
     (case r of
        Inl err \<Rightarrow> Inl err
      | Inr v \<Rightarrow> (case collect rs of Inl err \<Rightarrow> Inl err | Inr vs \<Rightarrow> Inr (v # vs)))"




text \<open>
  Taylor polynomials of the sine with the Lagrange remainder on either side, used to bound
  \<open>pi\<close> and tangents at rational points; the second branch of the refraction as a function
  of the tangent and the third as a function of the elevation; and the refraction as a real
  function, for the statements about its continuity (0 stands for a raised exception; the
  refraction raises none).
\<close>

definition sin_lo :: "real \<Rightarrow> real" where
  "sin_lo x = x - x ^ 3 / 6 + x ^ 5 / 120 - x ^ 7 / 5040"

definition sin_hi :: "real \<Rightarrow> real" where
  "sin_hi x = x - x ^ 3 / 6 + x ^ 5 / 120 + x ^ 7 / 5040"

definition refraction_mid :: "real \<Rightarrow> real" where
  "refraction_mid t = 58.1 / t - 0.07 / t ^ 3 + 0.000086 / t ^ 5"

definition refraction_low :: "real \<Rightarrow> real" where
  "refraction_low e = 1735 + e * (- 518.2 + e * (103.4 + e * (- 12.79 + e * 0.711)))"

definition refraction_arcsec :: "real \<Rightarrow> real" where
  "refraction_arcsec e = (case atmospheric_refraction e of Inl err \<Rightarrow> 0 | Inr arcsec \<Rightarrow> arcsec)"

section \<open>Properties\<close>

subsection \<open>Numerical bounds\<close>

lemma sin_coeffs:
  "sin_coeff 0 = 0" "sin_coeff 1 = 1" "sin_coeff 2 = 0" "sin_coeff 3 = - 1 / 6"
  "sin_coeff 4 = 0" "sin_coeff 5 = 1 / 120" "sin_coeff 6 = 0"
  by (simp_all add: sin_coeff_Suc cos_coeff_Suc eval_nat_numeral)

lemma sum_lessThan_7: "(\<Sum>m<7. f m) = f 0 + f 1 + f 2 + f 3 + f 4 + f 5 + f 6"
  for f :: "nat \<Rightarrow> real"
  by (simp add: eval_nat_numeral)

lemma sin_coeff_sum7: "(\<Sum>m<7. sin_coeff m * x ^ m) = x - x ^ 3 / 6 + x ^ 5 / 120" for x :: real
  unfolding sum_lessThan_7 sin_coeffs by simp

lemma t1: "(1/2::real) < sin_lo 0.5236"
  unfolding sin_lo_def by (simp add: power_divide)

lemma t2: "sin_hi 0.52334 < (1/2::real)"
  unfolding sin_hi_def by (simp add: power_divide)

lemma sin_between: "0 \<le> x \<Longrightarrow> sin_lo x \<le> sin x \<and> sin x \<le> sin_hi x"
proof -
  assume x: "0 \<le> x"
  have b: "\<bar>sin x - (x - x ^ 3 / 6 + x ^ 5 / 120)\<bar> \<le> inverse (fact 7) * \<bar>x\<bar> ^ 7"
    using Maclaurin_sin_bound [of x 7] unfolding sin_coeff_sum7 .
  have f7: "(fact 7 :: real) = 5040"
    by (simp add: fact_numeral)
  have "\<bar>x\<bar> = x" using x by simp
  then have c: "inverse (fact 7) * \<bar>x\<bar> ^ 7 = x ^ 7 / 5040"
    unfolding f7 by (simp add: field_simps)
  from b have "\<bar>sin x - (x - x ^ 3 / 6 + x ^ 5 / 120)\<bar> \<le> x ^ 7 / 5040"
    unfolding c .
  then show ?thesis
    unfolding sin_lo_def sin_hi_def by linarith
qed

lemma pi_upper: "pi < 3.1416"
proof (rule ccontr)
  assume "\<not> pi < 3.1416"
  then have le: "(0.5236::real) \<le> pi / 6" by simp
  have "sin 0.5236 \<le> sin (pi / 6)"
    by (rule sin_monotone_2pi_le) (use le in \<open>simp_all\<close>)
  moreover have "sin_lo 0.5236 \<le> sin 0.5236"
    using sin_between [of "0.5236"] by simp
  ultimately show False using t1 by (simp add: sin_30)
qed

lemma pi_lower: "3.14 < pi"
proof (rule ccontr)
  assume "\<not> 3.14 < pi"
  then have le: "pi / 6 \<le> (0.52334::real)" by simp
  have "sin (pi / 6) \<le> sin 0.52334"
  proof (rule sin_monotone_2pi_le)
    show "pi / 6 \<le> 0.52334" by (rule le)
    show "- (pi / 2) \<le> pi / 6" by simp
    have "(2::real) \<le> pi" by (rule pi_ge_two)
    then show "(0.52334::real) \<le> pi / 2" by simp
  qed
  moreover have "sin 0.52334 \<le> sin_hi 0.52334"
    using sin_between [of "0.52334"] by simp
  ultimately show False using t2 by (simp add: sin_30)
qed

lemma cos_between:
  assumes "0 \<le> x" and "0 \<le> sin_lo (x / 2)"
  shows "1 - 2 * (sin_hi (x / 2))\<^sup>2 \<le> cos x \<and> cos x \<le> 1 - 2 * (sin_lo (x / 2))\<^sup>2"
proof -
  have s: "sin_lo (x / 2) \<le> sin (x / 2)" "sin (x / 2) \<le> sin_hi (x / 2)"
    using sin_between [of "x / 2"] assms(1) by simp_all
  have c: "cos x = 1 - 2 * (sin (x / 2))\<^sup>2"
    using cos_double_sin [of "x / 2"] by simp
  have "(sin_lo (x / 2))\<^sup>2 \<le> (sin (x / 2))\<^sup>2"
    using s(1) assms(2) by (rule power_mono)
  moreover have "(sin (x / 2))\<^sup>2 \<le> (sin_hi (x / 2))\<^sup>2"
    using s(2) by (rule power_mono) (use s(1) assms(2) in linarith)
  ultimately show ?thesis unfolding c by simp
qed

lemma tan_point_upper:
  assumes "0 \<le> x" and "0 \<le> sin_lo (x / 2)" and "0 < 1 - 2 * (sin_hi (x / 2))\<^sup>2"
    and "0 \<le> sin_hi x"
  shows "tan x \<le> sin_hi x / (1 - 2 * (sin_hi (x / 2))\<^sup>2)"
proof -
  have c: "1 - 2 * (sin_hi (x / 2))\<^sup>2 \<le> cos x"
    using cos_between [OF assms(1,2)] by simp
  have s: "sin x \<le> sin_hi x"
    using sin_between [OF assms(1)] by simp
  have cp: "0 < cos x" using c assms(3) by linarith
  have "tan x = sin x / cos x" by (simp add: tan_def)
  also have "\<dots> \<le> sin_hi x / cos x"
    using s cp by (simp add: divide_right_mono)
  also have "\<dots> \<le> sin_hi x / (1 - 2 * (sin_hi (x / 2))\<^sup>2)"
    using c assms(3,4) cp by (intro divide_left_mono mult_pos_pos) linarith+
  finally show ?thesis .
qed

lemma tan_point_lower:
  assumes "0 \<le> x" and "0 \<le> sin_lo (x / 2)" and "0 < 1 - 2 * (sin_hi (x / 2))\<^sup>2"
    and "0 \<le> sin_lo x"
  shows "sin_lo x / (1 - 2 * (sin_lo (x / 2))\<^sup>2) \<le> tan x"
proof -
  have c: "1 - 2 * (sin_hi (x / 2))\<^sup>2 \<le> cos x" "cos x \<le> 1 - 2 * (sin_lo (x / 2))\<^sup>2"
    using cos_between [OF assms(1,2)] by simp_all
  have s: "sin_lo x \<le> sin x"
    using sin_between [OF assms(1)] by simp
  have cp: "0 < cos x" using c(1) assms(3) by linarith
  have "sin_lo x / (1 - 2 * (sin_lo (x / 2))\<^sup>2) \<le> sin_lo x / cos x"
    using c(2) assms(4) cp by (intro divide_left_mono mult_pos_pos) linarith+
  also have "\<dots> \<le> sin x / cos x"
    using s cp by (simp add: divide_right_mono)
  also have "\<dots> = tan x" by (simp add: tan_def)
  finally show ?thesis .
qed

lemma tan_5_bounds: "0.08744 \<le> tan (radians 5) \<and> tan (radians 5) \<le> 0.0875"
proof -
  have r: "0.08722 \<le> radians 5" "radians 5 \<le> 0.08727"
    using pi_lower pi_upper by (simp_all add: radians_def)
  have h: "(0.08727::real) < pi / 2"
    using pi_ge_two by simp
  have "tan 0.08722 \<le> tan (radians 5)"
    using r h pi_ge_two by (intro tan_mono_le) simp_all
  moreover have "tan (radians 5) \<le> tan 0.08727"
    using r h pi_ge_two by (intro tan_mono_le) simp_all
  moreover have "(0.08744::real) \<le> sin_lo 0.08722 / (1 - 2 * (sin_lo (0.08722 / 2))\<^sup>2)"
    by (simp add: sin_lo_def power_divide)
  moreover have "sin_lo 0.08722 / (1 - 2 * (sin_lo (0.08722 / 2))\<^sup>2) \<le> tan 0.08722"
    by (rule tan_point_lower) (simp_all add: sin_lo_def sin_hi_def power_divide)
  moreover have "sin_hi 0.08727 / (1 - 2 * (sin_hi (0.08727 / 2))\<^sup>2) \<le> (0.0875::real)"
    by (simp add: sin_hi_def power_divide)
  moreover have "tan 0.08727 \<le> sin_hi 0.08727 / (1 - 2 * (sin_hi (0.08727 / 2))\<^sup>2)"
    by (rule tan_point_upper) (simp_all add: sin_lo_def sin_hi_def power_divide)
  ultimately show ?thesis by linarith
qed

lemma tan_0575_bounds:
  "0.01 \<le> tan (radians 0.575) \<and> tan (radians 0.575) \<le> 0.01003601"
proof -
  have r: "0.01003 \<le> radians 0.575" "radians 0.575 \<le> 0.01003567"
    using pi_lower pi_upper by (simp_all add: radians_def)
  have h: "(0.01003567::real) < pi / 2"
    using pi_ge_two by simp
  have "tan 0.01003 \<le> tan (radians 0.575)"
    using r h pi_ge_two by (intro tan_mono_le) simp_all
  moreover have "tan (radians 0.575) \<le> tan 0.01003567"
    using r h pi_ge_two by (intro tan_mono_le) simp_all
  moreover have "(0.01::real) \<le> sin_lo 0.01003 / (1 - 2 * (sin_lo (0.01003 / 2))\<^sup>2)"
    by (simp add: sin_lo_def power_divide)
  moreover have "sin_lo 0.01003 / (1 - 2 * (sin_lo (0.01003 / 2))\<^sup>2) \<le> tan 0.01003"
    by (rule tan_point_lower) (simp_all add: sin_lo_def sin_hi_def power_divide)
  moreover have "sin_hi 0.01003567 / (1 - 2 * (sin_hi (0.01003567 / 2))\<^sup>2) \<le> (0.01003601::real)"
    by (simp add: sin_hi_def power_divide)
  moreover have "tan 0.01003567 \<le> sin_hi 0.01003567 / (1 - 2 * (sin_hi (0.01003567 / 2))\<^sup>2)"
    by (rule tan_point_upper) (simp_all add: sin_lo_def sin_hi_def power_divide)
  ultimately show ?thesis by linarith
qed

subsection \<open>Structure azimuth\<close>

text \<open>
  C5. For every solar azimuth and every \<open>max_rotation \<ge> 0\<close>, the clamped structure azimuth
  computed inside \<^verbatim>\<open>shade_coverage\<close> lies in \<open>[- max_rotation, max_rotation]\<close>, and it is 0 for
  every solar azimuth when \<open>max_rotation = 0\<close>.
\<close>

theorem azimuth_blume_within_rotation:
  "0 \<le> max_rotation \<Longrightarrow>
     - max_rotation \<le> azimuth_blume (180 - azimuth) max_rotation
     \<and> azimuth_blume (180 - azimuth) max_rotation \<le> max_rotation
     \<and> azimuth_blume (180 - azimuth) 0 = 0"
  by (simp add: azimuth_blume_def)

theorem azimuth_blume_within_rotation_witness:
  "(0::real) \<le> 45
     \<and> - 45 \<le> azimuth_blume (180 - 20) 45
     \<and> azimuth_blume (180 - 20) 45 \<le> 45
     \<and> azimuth_blume (180 - 20) 0 = 0"
  using azimuth_blume_within_rotation [of 45 20] by simp

subsection \<open>ET adjustment and water saved\<close>

lemma py_sum_sum_list: "py_sum xs = sum_list xs"
proof -
  have "foldl (+) a xs = a + sum_list xs" for a :: real
    by (induction xs arbitrary: a) simp_all
  then show ?thesis by (simp add: py_sum_def)
qed

lemma adjust_pairs_total:
  "\<forall>dm \<in> set dms. et (fst dm) \<noteq> None \<Longrightarrow>
     adjust_pairs dms = Inr (map (\<lambda>dm. the (et (fst dm)) * (1 - shade (snd dm))) dms)"
  by (induction dms) auto

lemma adjust_pairs_Inr:
  "adjust_pairs dms = Inr vs \<Longrightarrow>
     (\<forall>dm \<in> set dms. et (fst dm) \<noteq> None)
     \<and> vs = map (\<lambda>dm. the (et (fst dm)) * (1 - shade (snd dm))) dms"
  by (induction dms arbitrary: vs) (auto split: option.splits sum.splits)

text \<open>
  C1 (as stated, refuted). The claim: mismatched lengths or misaligned dates of the ET and
  shade sequences make the adjustment fail with an error. On the code a shorter ET
  sequence is zipped against the longer shade sequence and the surplus is dropped, and two
  items with different dates are multiplied together; both calls return a list.
\<close>

theorem adjusted_et_truncates_counterexample:
  "length [\<lparr>et_time = ''2022-01-01'', et = Some 4\<rparr>]
     \<noteq> length [\<lparr>shade_time = ''2022-01-01'', shade = 1 / 2\<rparr>,
               \<lparr>shade_time = ''2022-01-02'', shade = 1 / 4\<rparr>]
   \<and> adjusted_evapotranspiration (Some [\<lparr>et_time = ''2022-01-01'', et = Some 4\<rparr>])
        [\<lparr>shade_time = ''2022-01-01'', shade = 1 / 2\<rparr>,
         \<lparr>shade_time = ''2022-01-02'', shade = 1 / 4\<rparr>] = Inr [2]
   \<and> et_time \<lparr>et_time = ''2022-06-30'', et = Some 4\<rparr>
        \<noteq> shade_time \<lparr>shade_time = ''2022-01-01'', shade = 1 / 2\<rparr>
   \<and> adjusted_evapotranspiration (Some [\<lparr>et_time = ''2022-06-30'', et = Some 4\<rparr>])
        [\<lparr>shade_time = ''2022-01-01'', shade = 1 / 2\<rparr>] = Inr [2]"
  by (simp add: adjusted_evapotranspiration_def)

text \<open>
  C1 (amended). An absent ET result (\<^verbatim>\<open>None\<close> or an empty list from the fetch, both turned
  into \<^verbatim>\<open>None\<close> by \<^verbatim>\<open>evapotranspiration\<close>) makes the adjustment raise \<^verbatim>\<open>TypeError\<close>. When
  the ET sequence is present and each of its items has an \<^verbatim>\<open>'et'\<close> value, the adjustment
  returns \<^verbatim>\<open>et * (1 - shade)\<close> over the index-aligned pairs, its length the smaller of the
  two lengths; dates are not compared.
\<close>

theorem adjusted_et_absent_or_truncated:
  "adjusted_evapotranspiration (evapotranspiration None) daily_shade = Inl TypeError
   \<and> adjusted_evapotranspiration (evapotranspiration (Some [])) daily_shade = Inl TypeError
   \<and> ((\<forall>item \<in> set items. et item \<noteq> None) \<longrightarrow>
        adjusted_evapotranspiration (Some items) daily_shade
          = Inr (map (\<lambda>dm. the (et (fst dm)) * (1 - shade (snd dm))) (zip items daily_shade))
        \<and> (\<forall>vs. adjusted_evapotranspiration (Some items) daily_shade = Inr vs \<longrightarrow>
              length vs = min (length items) (length daily_shade)))"
proof -
  have "adjust_pairs (zip items daily_shade)
          = Inr (map (\<lambda>dm. the (et (fst dm)) * (1 - shade (snd dm))) (zip items daily_shade))"
    if "\<forall>item \<in> set items. et item \<noteq> None"
  proof (rule adjust_pairs_total)
    show "\<forall>dm \<in> set (zip items daily_shade). et (fst dm) \<noteq> None"
      using that by (auto dest: set_zip_leftD)
  qed
  then show ?thesis
    by (auto simp: adjusted_evapotranspiration_def evapotranspiration_def)
qed

theorem adjusted_et_absent_or_truncated_witness:
  "adjusted_evapotranspiration (evapotranspiration None) [\<lparr>shade_time = ''2022-01-01'', shade = 1 / 2\<rparr>]
     = Inl TypeError
   \<and> adjusted_evapotranspiration (Some [\<lparr>et_time = ''2022-01-01'', et = Some 4\<rparr>])
        [\<lparr>shade_time = ''2022-01-01'', shade = 1 / 2\<rparr>,
         \<lparr>shade_time = ''2022-01-02'', shade = 1 / 4\<rparr>] = Inr [2]
   \<and> length [2::real] = min (length [\<lparr>et_time = ''2022-01-01'', et = Some 4\<rparr>])
        (length [\<lparr>shade_time = ''2022-01-01'', shade = 1 / 2\<rparr>,
                 \<lparr>shade_time = ''2022-01-02'', shade = 1 / 4\<rparr>])"
  using adjusted_et_absent_or_truncated
    [of "[\<lparr>shade_time = ''2022-01-01'', shade = 1 / 2\<rparr>,
          \<lparr>shade_time = ''2022-01-02'', shade = 1 / 4\<rparr>]"
        "[\<lparr>et_time = ''2022-01-01'', et = Some 4\<rparr>]"]
    adjusted_et_absent_or_truncated [of "[\<lparr>shade_time = ''2022-01-01'', shade = 1 / 2\<rparr>]" "[]"]
  by simp

text \<open>
  C6. For an aligned pair of sequences (the adjustment returned \<open>adjusted_et_values\<close> for
  ET and shade sequences of the same length), every ET item has a value and
  \<^verbatim>\<open>water_saved\<close> is the sum of the ET values minus the sum of the adjusted values.
\<close>

theorem water_saved_is_difference:
  "adjusted_evapotranspiration (Some et_data) daily_shade = Inr adjusted_et_values \<Longrightarrow>
   length et_data = length daily_shade \<Longrightarrow>
     (\<forall>item \<in> set et_data. et item \<noteq> None)
     \<and> water_saved et_data adjusted_et_values
         = sum_list (map (\<lambda>item. the (et item)) et_data) - sum_list adjusted_et_values"
proof -
  assume a: "adjusted_evapotranspiration (Some et_data) daily_shade = Inr adjusted_et_values"
    and l: "length et_data = length daily_shade"
  from a have "\<forall>dm \<in> set (zip et_data daily_shade). et (fst dm) \<noteq> None"
    using adjust_pairs_Inr by (simp add: adjusted_evapotranspiration_def)
  moreover have "fst ` set (zip et_data daily_shade) = set et_data"
    using l by (metis map_fst_zip set_map)
  ultimately have all: "\<forall>item \<in> set et_data. et item \<noteq> None"
    by force
  then have "filter (\<lambda>item. et item \<noteq> None) et_data = et_data"
    by (simp add: filter_id_conv)
  then show ?thesis
    using all by (simp add: water_saved_def py_sum_sum_list)
qed

theorem water_saved_is_difference_witness:
  "adjusted_evapotranspiration
      (Some [\<lparr>et_time = ''2022-01-01'', et = Some 4\<rparr>, \<lparr>et_time = ''2022-01-02'', et = Some 8\<rparr>])
      [\<lparr>shade_time = ''2022-01-01'', shade = 1 / 2\<rparr>, \<lparr>shade_time = ''2022-01-02'', shade = 1 / 4\<rparr>]
     = Inr [2, 6]
   \<and> water_saved
        [\<lparr>et_time = ''2022-01-01'', et = Some 4\<rparr>, \<lparr>et_time = ''2022-01-02'', et = Some 8\<rparr>] [2, 6]
       = (4 + 8) - (2 + 6)"
  using water_saved_is_difference
    [of "[\<lparr>et_time = ''2022-01-01'', et = Some 4\<rparr>, \<lparr>et_time = ''2022-01-02'', et = Some 8\<rparr>]"
        "[\<lparr>shade_time = ''2022-01-01'', shade = 1 / 2\<rparr>, \<lparr>shade_time = ''2022-01-02'', shade = 1 / 4\<rparr>]"
        "[2, 6]"]
  by (simp add: adjusted_evapotranspiration_def)

subsection \<open>Nearest sunrise and sunset pair\<close>

lemma min_by_key_first_minimal:
  "first_minimal key pre i \<Longrightarrow> pre ! i = b \<Longrightarrow>
     \<exists>i'. first_minimal key (pre @ xs) i' \<and> (pre @ xs) ! i' = min_by_key key b xs"
proof (induction xs arbitrary: pre i b)
  case Nil
  then show ?case by auto
next
  case (Cons x xs)
  let ?b = "if key x < key b then x else b"
  let ?i = "if key x < key b then length pre else i"
  have fm: "first_minimal key (pre @ [x]) ?i"
    using Cons.prems
    by (auto simp: first_minimal_def nth_append less_Suc_eq intro: order_trans less_le_trans)
  have nth: "(pre @ [x]) ! ?i = ?b"
    using Cons.prems by (auto simp: first_minimal_def nth_append)
  from Cons.IH [OF fm nth] show ?case by simp
qed

lemma py_min_first_minimal:
  "xs \<noteq> [] \<Longrightarrow> \<exists>i. first_minimal key xs i \<and> py_min key xs = Inr (xs ! i)"
proof -
  assume "xs \<noteq> []"
  then obtain x rest where xs: "xs = x # rest" by (cases xs) auto
  have "first_minimal key [x] 0" by (simp add: first_minimal_def)
  from min_by_key_first_minimal [OF this, of x rest]
  show ?thesis by (auto simp: xs py_min_def)
qed

text \<open>
  C8. For a non-empty sequence of pairs and a local midnight \<open>target_date\<close>, the query
  returns the pair at the first index whose sunrise instant is at minimal absolute distance
  from the localized target. The example: with the biweekly pairs of 2022 (days 1, 15, 29,
  ...), the query for 20 January returns the pair of 15 January.
\<close>

theorem find_closest_first_nearest:
  "sunrise_sunset_pairs \<noteq> [] \<Longrightarrow>
     \<exists>i. first_minimal
            (\<lambda>pair. \<bar>instant \<lparr>wall = target_date, utcoffset = tz target_date\<rparr> - instant (fst pair)\<bar>)
            sunrise_sunset_pairs i
       \<and> find_closest_sunrise_sunset tz sunrise_sunset_pairs target_date
           = Inr (sunrise_sunset_pairs ! i)"
  using py_min_first_minimal [of sunrise_sunset_pairs]
  by (simp add: find_closest_sunrise_sunset_def)

theorem find_closest_first_nearest_witness:
  "map biweekly_pair [0 .. 26] \<noteq> []
   \<and> midnight 2022 1 20 = Inr 63778233600000000
   \<and> (\<exists>i. first_minimal
            (\<lambda>pair. \<bar>instant \<lparr>wall = 63778233600000000, utcoffset = - 28800000000\<rparr>
                       - instant (fst pair)\<bar>)
            (map biweekly_pair [0 .. 26]) i
         \<and> find_closest_sunrise_sunset (\<lambda>t. - 28800000000) (map biweekly_pair [0 .. 26])
              63778233600000000
            = Inr (map biweekly_pair [0 .. 26] ! i))
   \<and> find_closest_sunrise_sunset (\<lambda>t. - 28800000000) (map biweekly_pair [0 .. 26])
        63778233600000000 = Inr (biweekly_pair 1)
   \<and> fst (biweekly_pair 1)
       = \<lparr>wall = (ymd2ord 2022 1 15 - 1) * 86400000000 + 27000000000, utcoffset = - 28800000000\<rparr>"
proof -
  have ne: "map biweekly_pair [0 .. 26] \<noteq> []"
    by code_simp
  have mid: "midnight 2022 1 20 = Inr 63778233600000000"
    by code_simp
  have res: "find_closest_sunrise_sunset (\<lambda>t. - 28800000000) (map biweekly_pair [0 .. 26])
        63778233600000000 = Inr (biweekly_pair 1)"
    by code_simp
  have d15: "fst (biweekly_pair 1)
       = \<lparr>wall = (ymd2ord 2022 1 15 - 1) * 86400000000 + 27000000000, utcoffset = - 28800000000\<rparr>"
    by code_simp
  from find_closest_first_nearest [OF ne, of 63778233600000000 "\<lambda>t. - 28800000000"] ne mid res d15
  show ?thesis by simp
qed

subsection \<open>Daily aggregation\<close>

lemma second_microsecond: "second_of t * 1000000 + microsecond_of t = wall t mod 60000000"
proof -
  have "wall t mod (1000000 * 60) = 1000000 * (wall t div 1000000 mod 60) + wall t mod 1000000"
    by (rule zmod_zmult2_eq) simp
  then show ?thesis by (simp add: second_of_def microsecond_of_def)
qed

lemma second_microsecond_zero:
  "(second_of t \<noteq> 0 \<or> microsecond_of t \<noteq> 0) \<longleftrightarrow> wall t mod 60000000 \<noteq> 0"
proof -
  have "0 \<le> second_of t" "0 \<le> microsecond_of t"
    by (simp_all add: second_of_def microsecond_of_def)
  then show ?thesis using second_microsecond [of t] by linarith
qed

lemma replace_is_round_down: "replace_second_microsecond t = round_down_minute t"
proof -
  have "wall t - second_of t * 1000000 - microsecond_of t = wall t - wall t mod 60000000"
    using second_microsecond [of t] by linarith
  also have "\<dots> = wall t div 60000000 * 60000000"
    by (simp add: minus_mod_eq_div_mult)
  finally show ?thesis
    by (simp add: replace_second_microsecond_def round_down_minute_def)
qed

lemma sunrise_rounded_is_round_up:
  "plus_timedelta (replace_second_microsecond t)
     (if second_of t \<noteq> 0 \<or> microsecond_of t \<noteq> 0 then 60000000 else 0) = round_up_minute t"
proof (cases "wall t mod 60000000 = 0")
  case True
  then have "wall t div 60000000 * 60000000 = wall t"
    by (metis add.right_neutral div_mult_mod_eq)
  with True show ?thesis
    using second_microsecond_zero [of t]
    by (simp add: replace_is_round_down round_down_minute_def round_up_minute_def plus_timedelta_def)
next
  case False
  then show ?thesis
    using second_microsecond_zero [of t]
    by (simp add: replace_is_round_down round_down_minute_def round_up_minute_def
        plus_timedelta_def algebra_simps)
qed

lemma hourly_samples_Nil: "\<not> instant c \<le> instant s \<Longrightarrow> hourly_samples c s = []"
proof -
  assume "\<not> instant c \<le> instant s"
  then have "instant s - instant c < 0" by simp
  then have "(instant s - instant c) div 3600000000 < 0"
    by (simp add: div_neg_pos_less0)
  then show ?thesis by (simp add: hourly_samples_def)
qed

lemma hourly_samples_Cons:
  "instant c \<le> instant s \<Longrightarrow>
     hourly_samples c s = c # hourly_samples (plus_timedelta c 3600000000) s"
proof -
  assume le: "instant c \<le> instant s"
  define q where "q = (instant s - instant c) div 3600000000"
  have q0: "0 \<le> q" using le by (simp add: q_def pos_imp_zdiv_nonneg_iff)
  have q': "(instant s - instant (plus_timedelta c 3600000000)) div 3600000000 + 1 = q"
  proof -
    have "instant s - instant (plus_timedelta c 3600000000)
            = (instant s - instant c) + (- 1) * 3600000000"
      by (simp add: instant_def plus_timedelta_def)
    then have "(instant s - instant (plus_timedelta c 3600000000)) div 3600000000 = q + (- 1)"
      unfolding q_def by (simp only: div_mult_self1 [of 3600000000 "instant s - instant c" "- 1"])
    then show ?thesis by simp
  qed
  have n: "nat (q + 1) = Suc (nat q)" using q0 by simp
  have "hourly_samples c s
          = map (\<lambda>k. plus_timedelta c (int k * 3600000000)) [0 ..< Suc (nat q)]"
    by (simp only: hourly_samples_def q_def [symmetric] n)
  also have "\<dots> = plus_timedelta c 0
                     # map (\<lambda>k. plus_timedelta c (int (Suc k) * 3600000000)) [0 ..< nat q]"
    by (simp only: upt_conv_Cons [of 0 "Suc (nat q)"] map_Suc_upt [symmetric] list.map map_map o_def)
       simp
  also have "plus_timedelta c 0 = c"
    by (simp add: plus_timedelta_def)
  also have "map (\<lambda>k. plus_timedelta c (int (Suc k) * 3600000000)) [0 ..< nat q]
               = hourly_samples (plus_timedelta c 3600000000) s"
    unfolding hourly_samples_def q'
    by (simp add: plus_timedelta_def algebra_simps)
  finally show ?thesis .
qed

lemma sample_loop_collect:
  "sample_loop sample c s tot count =
     (case collect (map (\<lambda>t. sample (hour_of t) (minute_of t)) (hourly_samples c s)) of
        Inl err \<Rightarrow> Inl err
      | Inr xs \<Rightarrow> Inr (tot + sum_list xs, count + length xs))"
proof (induction sample c s tot count rule: sample_loop.induct)
  case (1 sample c s tot count)
  show ?case
  proof (cases "instant c \<le> instant s")
    case False
    then show ?thesis
      by (simp add: hourly_samples_Nil)
  next
    case True
    show ?thesis
    proof (cases "sample (hour_of c) (minute_of c)")
      case (Inl err)
      with True show ?thesis
        by (simp add: hourly_samples_Cons)
    next
      case (Inr v)
      with True "1.IH" [OF True Inr] show ?thesis
        by (simp add: hourly_samples_Cons split: sum.splits)
    qed
  qed
qed

lemma sample_loop_mean:
  "(case sample_loop sample
           (plus_timedelta (replace_second_microsecond sunrise)
              (if second_of sunrise \<noteq> 0 \<or> microsecond_of sunrise \<noteq> 0 then 60000000 else 0))
           (replace_second_microsecond sunset) 0 0 of
      Inl err \<Rightarrow> Inl err
    | Inr (total_shade_coverage, count) \<Rightarrow>
        Inr (if count \<noteq> 0 then total_shade_coverage / real count else 0))
   = (case collect (map (\<lambda>t. sample (hour_of t) (minute_of t))
                     (hourly_samples (round_up_minute sunrise) (round_down_minute sunset))) of
        Inl err \<Rightarrow> Inl err
      | Inr samples \<Rightarrow> Inr (mean samples))"
  unfolding sunrise_rounded_is_round_up
  unfolding replace_is_round_down sample_loop_collect
  by (simp add: mean_def split: sum.splits)

lemma iterate_as_collect:
  assumes "midnight y mo d = Inr target_date"
    and "find_closest_sunrise_sunset tz sunrise_sunset_pairs target_date = Inr (sunrise, sunset)"
  shows "iterate_sunrise_to_sunset sky tz sunrise_sunset_pairs mo d lat lon y ground_area height
           width tilt max_rotation timezone
         = (case collect
                   (map (\<lambda>t. shade_coverage sky lat lon y ground_area height width tilt
                                (hour_of t) max_rotation timezone mo d (minute_of t))
                      (hourly_samples (round_up_minute sunrise) (round_down_minute sunset))) of
              Inl err \<Rightarrow> Inl err
            | Inr samples \<Rightarrow> Inr (mean samples))"
  using assms by (simp only: iterate_sunrise_to_sunset_def Let_def sample_loop_mean sum.case prod.case)


subsection \<open>Atmospheric refraction\<close>

lemma radians_bounds:
  "0 < e \<Longrightarrow> 0 < radians e" "e < 90 \<Longrightarrow> radians e < pi / 2" "- 90 < e \<Longrightarrow> - (pi / 2) < radians e"
proof -
  show "0 < e \<Longrightarrow> 0 < radians e"
    by (simp add: radians_def)
  show "e < 90 \<Longrightarrow> radians e < pi / 2"
    using mult_strict_left_mono [of e 90 pi] by (simp add: radians_def mult.commute)
  show "- 90 < e \<Longrightarrow> - (pi / 2) < radians e"
    using mult_strict_left_mono [of "- 90" e pi] by (simp add: radians_def mult.commute)
qed

lemma radians_mono: "a \<le> b \<Longrightarrow> radians a \<le> radians b"
  by (simp add: radians_def field_simps)

lemma radians_minus: "radians (- e) = - radians e"
  by (simp add: radians_def)

lemma tan_radians_pos: "0 < e \<Longrightarrow> e < 90 \<Longrightarrow> 0 < tan (radians e)"
  by (intro tan_gt_zero radians_bounds)

lemma tan_radians_ge_5: "5 \<le> e \<Longrightarrow> e < 90 \<Longrightarrow> 0.08744 \<le> tan (radians e)"
proof -
  assume e: "5 \<le> e" "e < 90"
  have "tan (radians 5) \<le> tan (radians e)"
    using e by (intro tan_mono_le radians_bounds radians_mono) simp_all
  then show ?thesis using tan_5_bounds by linarith
qed

lemma tan_radians_le_minus_0575:
  "- 90 < e \<Longrightarrow> e \<le> - 0.575 \<Longrightarrow> tan (radians e) \<le> - 0.01"
proof -
  assume e: "- 90 < e" "e \<le> - 0.575"
  have "tan (radians e) \<le> tan (radians (- 0.575))"
    using e by (intro tan_mono_le radians_bounds radians_mono) simp_all
  also have "\<dots> = - tan (radians 0.575)"
    by (simp only: radians_minus tan_minus)
  finally show ?thesis using tan_0575_bounds by linarith
qed

lemma tan_85: "tan (radians 85) = 1 / tan (radians 5)"
proof -
  have "radians 85 = pi / 2 - radians 5"
    by (simp add: radians_def field_simps)
  then show ?thesis by (simp add: tan_cot inverse_eq_divide)
qed

lemma sin_radians_pos: "0 < d \<Longrightarrow> d < 180 \<Longrightarrow> 0 < sin (radians d)"
proof -
  assume d: "0 < d" "d < 180"
  have "radians d < pi"
    using mult_strict_left_mono [of d 180 pi] d by (simp add: radians_def mult.commute)
  then show ?thesis using d by (intro sin_gt_zero radians_bounds)
qed

lemma sin_radians_neg: "- 180 < d \<Longrightarrow> d < 0 \<Longrightarrow> sin (radians d) < 0"
proof -
  assume "- 180 < d" "d < 0"
  then have "0 < sin (radians (- d))" by (intro sin_radians_pos) simp_all
  then show ?thesis by (simp add: radians_minus)
qed

lemma div_by_tan_returns: "d \<noteq> 0 \<Longrightarrow> \<exists>q. div_by_tan a d = Inr q"
  by (simp add: div_by_tan_def)

lemma div_by_tan_zero: "div_by_tan a 0 = Inl ZeroDivisionError"
  by (simp add: div_by_tan_def)

lemma div_by_tan_tan:
  assumes "- 90 < d" and "d < 90" and "d \<noteq> 0"
  shows "div_by_tan a d = Inr (a / tan (radians d))"
proof -
  have "sin (radians d) \<noteq> 0"
    using assms sin_radians_pos [of d] sin_radians_neg [of d] by (cases "0 < d") auto
  then show ?thesis
    using assms(3) by (simp add: div_by_tan_def tan_def)
qed

lemma radians_90: "radians 90 = pi / 2" "radians (- 90) = - (pi / 2)"
  by (simp_all add: radians_def)

lemma div_by_tan_90: "div_by_tan a 90 = Inr 0" "div_by_tan a (- 90) = Inr 0"
  by (simp_all add: div_by_tan_def radians_90)

lemma refraction_above_85: "85 < e \<Longrightarrow> atmospheric_refraction e = Inr 0"
  by (simp add: atmospheric_refraction_def)

lemma refraction_5_85:
  "5 < e \<Longrightarrow> e \<le> 85 \<Longrightarrow> atmospheric_refraction e = Inr (refraction_mid (tan (radians e)))"
  using tan_radians_pos [of e] by (simp add: atmospheric_refraction_def refraction_mid_def)

lemma refraction_0575_5:
  "- 0.575 < e \<Longrightarrow> e \<le> 5 \<Longrightarrow> atmospheric_refraction e = Inr (refraction_low e)"
  by (simp add: atmospheric_refraction_def refraction_low_def)

lemma refraction_below_0575:
  "- 90 < e \<Longrightarrow> e \<le> - 0.575 \<Longrightarrow>
     atmospheric_refraction e = Inr (- 20.772 / tan (radians e))"
  by (simp add: atmospheric_refraction_def div_by_tan_tan)

lemma refraction_mid_bounds:
  assumes t: "0.08744 \<le> t"
  shows "0 < refraction_mid t" and "refraction_mid t < 700"
proof -
  have tp: "0 < t" using t by simp
  have t2: "0.0076 \<le> t ^ 2"
  proof -
    have "(0.08744::real) ^ 2 \<le> t ^ 2" using t by (intro power_mono) simp_all
    then show ?thesis by (simp add: power_divide)
  qed
  have t5: "(0.08744::real) ^ 5 \<le> t ^ 5" using t by (intro power_mono) simp_all
  have "0.07 / t ^ 3 = (0.07 / t ^ 2) / t"
    by (simp add: power3_eq_cube power2_eq_square)
  also have "\<dots> \<le> 10 / t"
  proof (rule divide_right_mono)
    have "0.07 / t ^ 2 \<le> 0.07 / 0.0076"
      using t2 tp by (intro divide_left_mono) simp_all
    then show "0.07 / t ^ 2 \<le> 10" by simp
    show "0 \<le> t" using tp by simp
  qed
  finally have a: "0.07 / t ^ 3 \<le> 10 / t" .
  have b: "0 < 0.000086 / t ^ 5" using tp by simp
  have c: "0 < 48.1 / t" using tp by simp
  have "58.1 / t - 10 / t = 48.1 / t"
    by (simp add: diff_divide_distrib [symmetric])
  with a b c show "0 < refraction_mid t"
    unfolding refraction_mid_def by linarith
  have d: "58.1 / t \<le> 58.1 / 0.08744"
    using t by (intro divide_left_mono) simp_all
  have e: "0.000086 / t ^ 5 \<le> 0.000086 / 0.08744 ^ 5"
    using t5 tp by (intro divide_left_mono) simp_all
  have f: "0 \<le> 0.07 / t ^ 3" using tp by simp
  have g: "58.1 / 0.08744 + 0.000086 / 0.08744 ^ 5 < (700::real)"
    by (simp add: power_divide)
  from d e f g show "refraction_mid t < 700"
    unfolding refraction_mid_def by linarith
qed

lemma refraction_low_nonneg:
  assumes "0 \<le> e" and "e \<le> 5"
  shows "0 \<le> refraction_low e"
proof -
  have e2: "0 \<le> e\<^sup>2" by simp
  have "0 \<le> x \<Longrightarrow> y \<le> 5 \<Longrightarrow> 0 \<le> 103.4 - 12.79 * y + 0.711 * x - 39.45" for x y :: real
    by simp
  from this [OF e2 assms(2)] have "0 \<le> 103.4 - 12.79 * e + 0.711 * e\<^sup>2 - 39.45" .
  then have a: "0 \<le> e\<^sup>2 * (103.4 - 12.79 * e + 0.711 * e\<^sup>2 - 39.45)"
    using e2 by (rule mult_nonneg_nonneg [rotated])
  have b: "0 \<le> 39.45 * (e - 6.56)\<^sup>2" by simp
  have c: "refraction_low e
             = e\<^sup>2 * (103.4 - 12.79 * e + 0.711 * e\<^sup>2 - 39.45) + 39.45 * (e - 6.56)\<^sup>2
               + (37.32448 - 0.616 * e)"
    by (simp add: refraction_low_def power2_eq_square algebra_simps)
  have "0 \<le> A \<Longrightarrow> 0 \<le> B \<Longrightarrow> y \<le> 5 \<Longrightarrow> 0 \<le> A + B + (37.32448 - 0.616 * y)"
    for A B y :: real
    by simp
  from this [OF a b assms(2)] show ?thesis unfolding c .
qed

lemma abs_mult_bound: "\<bar>a\<bar> \<le> A \<Longrightarrow> \<bar>b\<bar> \<le> B \<Longrightarrow> \<bar>a * b\<bar> \<le> A * (B::real)"
  unfolding abs_mult by (intro mult_mono) simp_all

lemma refraction_low_upper:
  assumes "- 1 \<le> e" and "e \<le> 5"
  shows "refraction_low e \<le> 10000"
proof -
  have e: "\<bar>e\<bar> \<le> 5" using assms by simp
  have "\<bar>- 12.79 + e * 0.711\<bar> \<le> 17" using e by simp
  from abs_mult_bound [OF e this]
  have "\<bar>103.4 + e * (- 12.79 + e * 0.711)\<bar> \<le> 189" by simp
  from abs_mult_bound [OF e this]
  have "\<bar>- 518.2 + e * (103.4 + e * (- 12.79 + e * 0.711))\<bar> \<le> 1464" by simp
  from abs_mult_bound [OF e this]
  show ?thesis unfolding refraction_low_def by simp
qed

lemma refraction_below_bounds:
  assumes "- 90 < e" and "e \<le> - 0.575"
  shows "0 < - 20.772 / tan (radians e)" and "- 20.772 / tan (radians e) \<le> 2077.2"
proof -
  have t: "tan (radians e) \<le> - 0.01"
    using assms by (rule tan_radians_le_minus_0575)
  then show "0 < - 20.772 / tan (radians e)"
    by (simp add: field_simps)
  have "- 20.772 / tan (radians e) = 20.772 / (- tan (radians e))" by simp
  also have "\<dots> \<le> 20.772 / 0.01"
    using t by (intro divide_left_mono) simp_all
  finally show "- 20.772 / tan (radians e) \<le> 2077.2" by simp
qed

lemma atmospheric_refraction_returns: "\<exists>r. atmospheric_refraction e = Inr r"
proof (cases "e \<le> - 0.575")
  case True
  then have "e \<noteq> 0" by simp
  from div_by_tan_returns [OF this, of "- 20.772"] True
  show ?thesis by (simp add: atmospheric_refraction_def)
next
  case False
  then show ?thesis by (simp add: atmospheric_refraction_def)
qed

lemma refraction_at_minus_90: "atmospheric_refraction (- 90) = Inr 0"
  by (simp add: atmospheric_refraction_def div_by_tan_90)

lemma solar_position_adj_floor:
  assumes "solar_position_adj e = Inr v"
  shows "0.0000000001 \<le> v \<and> v \<noteq> 0"
proof -
  from assms obtain r where "v = max 0.0000000001 (e + r / 3600)"
    by (auto simp: solar_position_adj_def Let_def split: sum.splits)
  then have "0.0000000001 \<le> v"
    by (simp only: max.cobounded1)
  moreover have "(0::real) < 0.0000000001" by simp
  ultimately show ?thesis by (simp only: conj_commute) (metis less_le_not_le)
qed

lemma solar_position_adj_returns: "\<exists>v. solar_position_adj e = Inr v"
  using atmospheric_refraction_returns [of e]
  by (auto simp: solar_position_adj_def Let_def)

lemma solar_position_adj_le_90:
  assumes e: "- 90 \<le> e" "e \<le> 90" and v: "solar_position_adj e = Inr v"
  shows "v \<le> 90"
proof -
  have "\<exists>r. atmospheric_refraction e = Inr r \<and> e + r / 3600 \<le> 90"
  proof -
    consider "85 < e" | "5 < e" "e \<le> 85" | "- 0.575 < e" "e \<le> 5"
      | "- 90 < e" "e \<le> - 0.575" | "e = - 90"
      using e(1) by linarith
    then show ?thesis
    proof cases
      case 1
      then show ?thesis using e by (simp add: refraction_above_85)
    next
      case 2
      have "refraction_mid (tan (radians e)) < 700"
        using 2 by (intro refraction_mid_bounds tan_radians_ge_5) simp_all
      then have "e + refraction_mid (tan (radians e)) / 3600 \<le> 90"
        using 2 by simp
      then show ?thesis using 2 by (simp add: refraction_5_85)
    next
      case 3
      have "refraction_low e \<le> 10000"
        using 3 by (intro refraction_low_upper) simp_all
      then have "e + refraction_low e / 3600 \<le> 90"
        using 3 by simp
      then show ?thesis using 3 by (simp add: refraction_0575_5)
    next
      case 4
      have "- 20.772 / tan (radians e) \<le> 2077.2"
        using 4 by (intro refraction_below_bounds) simp_all
      then have "e + (- 20.772 / tan (radians e)) / 3600 \<le> 90"
        using 4 by simp
      then show ?thesis using 4 by (simp add: refraction_below_0575)
    next
      case 5
      then show ?thesis by (simp add: refraction_at_minus_90)
    qed
  qed
  then obtain r where r: "atmospheric_refraction e = Inr r" "e + r / 3600 \<le> 90"
    by blast
  have "v = max 0.0000000001 (e + r / 3600)"
    using v r(1) by (simp add: solar_position_adj_def Let_def)
  then show ?thesis using r(2) by simp
qed

lemma shadow_dimensions_returns:
  "v \<noteq> 0 \<Longrightarrow>
     \<exists>area. shadow_dimensions height width tilt v solar_azimuth az_blume = Inr area"
  by (simp add: shadow_dimensions_def div_by_tan_def Let_def)

lemma shadow_dimensions_zero:
  "shadow_dimensions height width tilt 0 solar_azimuth az_blume = Inl ZeroDivisionError"
  by (simp add: shadow_dimensions_def div_by_tan_def Let_def)

text \<open>
  C7. For every input elevation the refraction-corrected elevation is returned, it is at
  least \<open>10\<^sup>-\<^sup>1\<^sup>0\<close> and so not zero, and \<^verbatim>\<open>shadow_dimensions\<close> called with it returns an area:
  its divisions by the tangent are defined. For an elevation from -90 to 90 degrees, both
  included, the corrected elevation is at most 90 degrees and the sine of its angle is
  positive, so that the quotients of \<^verbatim>\<open>shadow_dimensions\<close> are those of the real
  cotangent. At elevation 0, which the floor excludes, \<^verbatim>\<open>shadow_dimensions\<close> raises
  \<^verbatim>\<open>ZeroDivisionError\<close>.
\<close>

theorem corrected_elevation_positive:
  "(\<exists>v. solar_position_adj e = Inr v \<and> 0.0000000001 \<le> v \<and> v \<noteq> 0
        \<and> (\<exists>area. shadow_dimensions height width tilt v solar_azimuth az_blume = Inr area))
   \<and> (- 90 \<le> e \<and> e \<le> 90 \<longrightarrow>
        (\<forall>v. solar_position_adj e = Inr v \<longrightarrow> v \<le> 90 \<and> 0 < sin (radians v)))
   \<and> shadow_dimensions height width tilt 0 solar_azimuth az_blume = Inl ZeroDivisionError"
proof -
  obtain v where v: "solar_position_adj e = Inr v"
    using solar_position_adj_returns [of e] by (elim exE)
  have f: "0.0000000001 \<le> v \<and> v \<noteq> 0"
    using v by (rule solar_position_adj_floor)
  have f1: "0.0000000001 \<le> v" using f by (rule conjunct1)
  have f2: "v \<noteq> 0" using f by (rule conjunct2)
  have s: "\<exists>area. shadow_dimensions height width tilt v solar_azimuth az_blume = Inr area"
    using f2 by (rule shadow_dimensions_returns)
  have 1: "\<exists>v. solar_position_adj e = Inr v \<and> 0.0000000001 \<le> v \<and> v \<noteq> 0
        \<and> (\<exists>area. shadow_dimensions height width tilt v solar_azimuth az_blume = Inr area)"
    by (rule exI [of _ v]) (intro conjI v f1 f2 s)
  have 3: "- 90 \<le> e \<and> e \<le> 90 \<longrightarrow>
        (\<forall>v. solar_position_adj e = Inr v \<longrightarrow> v \<le> 90 \<and> 0 < sin (radians v))"
  proof (intro impI allI)
    fix w
    assume e: "- 90 \<le> e \<and> e \<le> 90" and w: "solar_position_adj e = Inr w"
    have e1: "- 90 \<le> e" using e by (rule conjunct1)
    have e2: "e \<le> 90" using e by (rule conjunct2)
    have le: "w \<le> 90" using e1 e2 w by (rule solar_position_adj_le_90)
    have "0.0000000001 \<le> w \<and> w \<noteq> 0" using w by (rule solar_position_adj_floor)
    then have "0.0000000001 \<le> w" by (rule conjunct1)
    then have w0: "0 < w" by simp
    have "w < 180" using le by simp
    with w0 have "0 < sin (radians w)" by (rule sin_radians_pos)
    with le show "w \<le> 90 \<and> 0 < sin (radians w)" by (rule conjI)
  qed
  show ?thesis
    by (intro conjI 1 3 shadow_dimensions_zero)
qed

theorem corrected_elevation_positive_witness:
  "solar_position_adj (- 90) = Inr 0.0000000001
   \<and> solar_position_adj 90 = Inr 90
   \<and> (\<exists>area. shadow_dimensions 22.3 18.3 35 90 0 0 = Inr area)
   \<and> - 90 \<le> (90::real) \<and> (90::real) \<le> 90
   \<and> 0 < sin (radians 90)
   \<and> (\<exists>v. solar_position_adj 90 = Inr v \<and> 0.0000000001 \<le> v \<and> v \<noteq> 0
          \<and> (\<exists>area. shadow_dimensions 22.3 18.3 35 v 0 0 = Inr area))"
proof -
  have a: "solar_position_adj (- 90) = Inr 0.0000000001"
    by (simp add: solar_position_adj_def refraction_at_minus_90 Let_def)
  have b: "solar_position_adj 90 = Inr 90"
    by (simp add: solar_position_adj_def refraction_above_85 Let_def)
  note t = corrected_elevation_positive [of 90 "22.3" "18.3" 35 0 0]
  have t1: "\<exists>v. solar_position_adj 90 = Inr v \<and> 0.0000000001 \<le> v \<and> v \<noteq> 0
          \<and> (\<exists>area. shadow_dimensions 22.3 18.3 35 v 0 0 = Inr area)"
    using t by (rule conjunct1)
  then obtain v where tv: "solar_position_adj 90 = Inr v \<and> 0.0000000001 \<le> v \<and> v \<noteq> 0
          \<and> (\<exists>area. shadow_dimensions 22.3 18.3 35 v 0 0 = Inr area)"
    by (elim exE)
  have v: "solar_position_adj 90 = Inr v" using tv by (rule conjunct1)
  have s: "\<exists>area. shadow_dimensions 22.3 18.3 35 v 0 0 = Inr area"
    using tv by (rule conjunct2 [OF conjunct2 [OF conjunct2]])
  have "v = 90" using v b by simp
  with s have c: "\<exists>area. shadow_dimensions 22.3 18.3 35 90 0 0 = Inr area"
    by simp
  have r1: "- 90 \<le> (90::real)" by simp
  have r2: "(90::real) \<le> 90" by simp
  have r: "- 90 \<le> (90::real) \<and> (90::real) \<le> 90" using r1 r2 by (rule conjI)
  have "- 90 \<le> (90::real) \<and> (90::real) \<le> 90 \<longrightarrow>
        (\<forall>v. solar_position_adj 90 = Inr v \<longrightarrow> v \<le> 90 \<and> 0 < sin (radians v))"
    using t by (rule conjunct1 [OF conjunct2])
  then have "\<forall>v. solar_position_adj 90 = Inr v \<longrightarrow> v \<le> 90 \<and> 0 < sin (radians v)"
    using r by (rule mp)
  then have "solar_position_adj 90 = Inr 90 \<longrightarrow> 90 \<le> (90::real) \<and> 0 < sin (radians 90)"
    by (rule spec)
  then have "90 \<le> (90::real) \<and> 0 < sin (radians 90)"
    using b by (rule mp)
  then have d: "0 < sin (radians 90)" by (rule conjunct2)
  show ?thesis
    by (intro conjI a b c r1 r2 d t1)
qed

lemma refraction_arcsec_Inr: "atmospheric_refraction e = Inr r \<Longrightarrow> refraction_arcsec e = r"
  by (simp add: refraction_arcsec_def)

lemma cos_radians_pos: "- 90 < e \<Longrightarrow> e < 90 \<Longrightarrow> 0 < cos (radians e)"
  by (intro cos_gt_zero_pi radians_bounds)

lemma right_limit:
  fixes f g :: "real \<Rightarrow> real"
  assumes "a < b" and "\<And>x. a < x \<Longrightarrow> x < b \<Longrightarrow> f x = g x" and "isCont g a"
  shows "(f \<longlongrightarrow> g a) (at_right a)"
proof -
  have "(g \<longlongrightarrow> g a) (at a)"
    using assms(3) by (simp add: isCont_def)
  then have g: "(g \<longlongrightarrow> g a) (at_right a)"
    by (simp add: filterlim_at_split)
  have "eventually (\<lambda>x. x \<in> {a<..<b}) (at_right a)"
    using assms(1) by (rule eventually_at_right_real)
  then have "eventually (\<lambda>x. f x = g x) (at_right a)"
    by (rule eventually_mono) (simp add: assms(2))
  then show ?thesis using g by (simp add: tendsto_cong)
qed

lemma left_limit:
  fixes f g :: "real \<Rightarrow> real"
  assumes "b < a" and "\<And>x. b < x \<Longrightarrow> x < a \<Longrightarrow> f x = g x" and "isCont g a"
  shows "(f \<longlongrightarrow> g a) (at_left a)"
proof -
  have "(g \<longlongrightarrow> g a) (at a)"
    using assms(3) by (simp add: isCont_def)
  then have g: "(g \<longlongrightarrow> g a) (at_left a)"
    by (simp add: filterlim_at_split)
  have "eventually (\<lambda>x. x \<in> {b<..<a}) (at_left a)"
    using assms(1) by (rule eventually_at_left_real)
  then have "eventually (\<lambda>x. f x = g x) (at_left a)"
    by (rule eventually_mono) (simp add: assms(2))
  then show ?thesis using g by (simp add: tendsto_cong)
qed

lemma limits_differ_not_cont:
  fixes f :: "real \<Rightarrow> real"
  assumes "(f \<longlongrightarrow> l) (at_left a)" and "(f \<longlongrightarrow> r) (at_right a)" and "l \<noteq> r"
  shows "\<not> isCont f a"
proof
  assume "isCont f a"
  then have "(f \<longlongrightarrow> f a) (at a)" by (simp add: isCont_def)
  then have "(f \<longlongrightarrow> f a) (at_left a)" "(f \<longlongrightarrow> f a) (at_right a)"
    by (simp_all add: filterlim_at_split)
  then have "f a = l" "f a = r"
    using assms(1,2) by (auto intro: tendsto_unique [rotated])
  with assms(3) show False by simp
qed

lemma isCont_mid: "- 90 < a \<Longrightarrow> a < 90 \<Longrightarrow> a \<noteq> 0 \<Longrightarrow>
    isCont (\<lambda>x. refraction_mid (tan (radians x))) a"
proof -
  assume a: "- 90 < a" "a < 90" "a \<noteq> 0"
  have c: "cos (a * pi / 180) \<noteq> 0"
    using cos_radians_pos [OF a(1,2)] by (simp add: radians_def)
  have t: "tan (a * pi / 180) \<noteq> 0"
  proof (cases "0 < a")
    case True
    then show ?thesis using tan_radians_pos [of a] a by (simp add: radians_def)
  next
    case False
    then have "0 < - a" "- a < 90" using a by simp_all
    then have "0 < tan (radians (- a))" by (rule tan_radians_pos)
    then show ?thesis by (simp add: radians_def)
  qed
  show ?thesis
    unfolding refraction_mid_def radians_def
    using c t by (intro continuous_intros) simp_all
qed

lemma isCont_low: "isCont refraction_low a"
  unfolding refraction_low_def by (intro continuous_intros)

lemma isCont_below: "- 90 < a \<Longrightarrow> a < 0 \<Longrightarrow> isCont (\<lambda>x. - 20.772 / tan (radians x)) a"
proof -
  assume a: "- 90 < a" "a < 0"
  have c: "cos (a * pi / 180) \<noteq> 0"
    using cos_radians_pos [of a] a by (simp add: radians_def)
  have "0 < - a" "- a < 90" using a by simp_all
  then have "0 < tan (radians (- a))" by (rule tan_radians_pos)
  then have t: "tan (a * pi / 180) \<noteq> 0" by (simp add: radians_def)
  show ?thesis
    unfolding radians_def
    using c t by (intro continuous_intros) simp_all
qed

lemma mid_at_85: "5 < refraction_mid (tan (radians 85))"
proof -
  define t where "t = tan (radians 5)"
  have t: "0.08744 \<le> t" "t \<le> 0.0875"
    using tan_5_bounds by (simp_all add: t_def)
  have tp: "0 < t" using t by simp
  have eq: "refraction_mid (tan (radians 85)) = 58.1 * t - 0.07 * t ^ 3 + 0.000086 * t ^ 5"
    unfolding tan_85 t_def [symmetric] refraction_mid_def
    by (simp add: power_divide)
  have a: "58.1 * 0.08744 \<le> 58.1 * t"
    using t by (intro mult_left_mono) simp_all
  have "t ^ 3 \<le> 0.0875 ^ 3"
    using t tp by (intro power_mono) simp_all
  then have b: "0.07 * t ^ 3 \<le> 0.07 * 0.0875 ^ 3"
    by (intro mult_left_mono) simp_all
  have c: "0 \<le> 0.000086 * t ^ 5" using tp by simp
  have "A \<le> x \<Longrightarrow> y \<le> B \<Longrightarrow> 0 \<le> C \<Longrightarrow> 5 < x - y + C"
    if "5 < A - B" for x y A B C :: real
    using that by linarith
  from this [OF _ a b c] show ?thesis
    unfolding eq by (simp add: power_divide)
qed

lemma mid_at_5: "576 < refraction_mid (tan (radians 5))"
proof -
  define t where "t = tan (radians 5)"
  have t: "0.08744 \<le> t" "t \<le> 0.0875"
    using tan_5_bounds by (simp_all add: t_def)
  have tp: "0 < t" using t by simp
  have a: "58.1 / 0.0875 \<le> 58.1 / t"
    using t tp by (intro divide_left_mono) simp_all
  have "(0.08744::real) ^ 3 \<le> t ^ 3"
    using t by (intro power_mono) simp_all
  then have b: "0.07 / t ^ 3 \<le> 0.07 / 0.08744 ^ 3"
    using tp by (intro divide_left_mono) simp_all
  have "t ^ 5 \<le> 0.0875 ^ 5"
    using t tp by (intro power_mono) simp_all
  then have c: "0.000086 / 0.0875 ^ 5 \<le> 0.000086 / t ^ 5"
    using tp by (intro divide_left_mono) simp_all
  have "A \<le> x \<Longrightarrow> y \<le> B \<Longrightarrow> C \<le> z \<Longrightarrow> 576 < x - y + z"
    if "576 < A - B + C" for x y z A B C :: real
    using that by linarith
  from this [OF _ a b c] show ?thesis
    unfolding refraction_mid_def t_def [symmetric] by (simp add: power_divide)
qed

lemma low_at_5: "refraction_low 5 = 574.625"
  by (simp add: refraction_low_def)

lemma low_at_minus_0575: "refraction_low (- 0.575) < 2069.67"
  by (simp add: refraction_low_def)

lemma below_at_minus_0575: "2069.74 < - 20.772 / tan (radians (- 0.575))"
proof -
  have t: "0 < tan (radians 0.575)" "tan (radians 0.575) \<le> 0.01003601"
    using tan_0575_bounds by simp_all
  have "- 20.772 / tan (radians (- 0.575)) = 20.772 / tan (radians 0.575)"
    by (simp add: radians_minus)
  moreover have "20.772 / 0.01003601 \<le> 20.772 / tan (radians 0.575)"
    using t by (intro divide_left_mono) simp_all
  moreover have "(2069.74::real) < 20.772 / 0.01003601"
    by simp
  ultimately show ?thesis by linarith
qed

lemma limits_at_85:
  "(refraction_arcsec \<longlongrightarrow> refraction_mid (tan (radians 85))) (at_left 85)"
  "(refraction_arcsec \<longlongrightarrow> 0) (at_right 85)"
proof -
  show "(refraction_arcsec \<longlongrightarrow> refraction_mid (tan (radians 85))) (at_left 85)"
  proof (rule left_limit [where b = 5 and g = "\<lambda>x. refraction_mid (tan (radians x))"])
    show "(5::real) < 85" by simp
    show "refraction_arcsec x = refraction_mid (tan (radians x))" if "5 < x" "x < 85" for x
      using that by (intro refraction_arcsec_Inr refraction_5_85) simp_all
    show "isCont (\<lambda>x. refraction_mid (tan (radians x))) 85"
      by (rule isCont_mid) simp_all
  qed
  show "(refraction_arcsec \<longlongrightarrow> 0) (at_right 85)"
  proof (rule right_limit [where b = 86 and g = "\<lambda>x. 0"])
    show "(85::real) < 86" by simp
    show "refraction_arcsec x = 0" if "85 < x" "x < 86" for x
      using that by (intro refraction_arcsec_Inr refraction_above_85)
    show "isCont (\<lambda>x::real. 0::real) 85" by simp
  qed
qed

lemma limits_at_5:
  "(refraction_arcsec \<longlongrightarrow> refraction_low 5) (at_left 5)"
  "(refraction_arcsec \<longlongrightarrow> refraction_mid (tan (radians 5))) (at_right 5)"
proof -
  show "(refraction_arcsec \<longlongrightarrow> refraction_low 5) (at_left 5)"
  proof (rule left_limit [where b = 0 and g = refraction_low])
    show "(0::real) < 5" by simp
    show "refraction_arcsec x = refraction_low x" if "0 < x" "x < 5" for x
      using that by (intro refraction_arcsec_Inr refraction_0575_5) simp_all
    show "isCont refraction_low 5" by (rule isCont_low)
  qed
  show "(refraction_arcsec \<longlongrightarrow> refraction_mid (tan (radians 5))) (at_right 5)"
  proof (rule right_limit [where b = 85 and g = "\<lambda>x. refraction_mid (tan (radians x))"])
    show "(5::real) < 85" by simp
    show "refraction_arcsec x = refraction_mid (tan (radians x))" if "5 < x" "x < 85" for x
      using that by (intro refraction_arcsec_Inr refraction_5_85) simp_all
    show "isCont (\<lambda>x. refraction_mid (tan (radians x))) 5"
      by (rule isCont_mid) simp_all
  qed
qed

lemma limits_at_minus_0575:
  "(refraction_arcsec \<longlongrightarrow> - 20.772 / tan (radians (- 0.575))) (at_left (- 0.575))"
  "(refraction_arcsec \<longlongrightarrow> refraction_low (- 0.575)) (at_right (- 0.575))"
proof -
  show "(refraction_arcsec \<longlongrightarrow> - 20.772 / tan (radians (- 0.575))) (at_left (- 0.575))"
  proof (rule left_limit [where b = "- 90" and g = "\<lambda>x. - 20.772 / tan (radians x)"])
    show "(- 90::real) < - 0.575" by simp
    show "refraction_arcsec x = - 20.772 / tan (radians x)" if "- 90 < x" "x < - 0.575" for x
      using that by (intro refraction_arcsec_Inr refraction_below_0575) simp_all
    show "isCont (\<lambda>x. - 20.772 / tan (radians x)) (- 0.575)"
      by (rule isCont_below) simp_all
  qed
  show "(refraction_arcsec \<longlongrightarrow> refraction_low (- 0.575)) (at_right (- 0.575))"
  proof (rule right_limit [where b = 5 and g = refraction_low])
    show "(- 0.575::real) < 5" by simp
    show "refraction_arcsec x = refraction_low x" if "- 0.575 < x" "x < 5" for x
      using that by (intro refraction_arcsec_Inr refraction_0575_5) simp_all
    show "isCont refraction_low (- 0.575)" by (rule isCont_low)
  qed
qed

lemma refraction_nonneg: "0 < e \<Longrightarrow> \<exists>r. atmospheric_refraction e = Inr r \<and> 0 \<le> r"
proof -
  assume e: "0 < e"
  consider "85 < e" | "5 < e" "e \<le> 85" | "e \<le> 5" by linarith
  then show ?thesis
  proof cases
    case 1
    then show ?thesis by (simp add: refraction_above_85)
  next
    case 2
    have "0 < refraction_mid (tan (radians e))"
      using 2 by (intro refraction_mid_bounds tan_radians_ge_5) simp_all
    then show ?thesis using 2 by (simp add: refraction_5_85)
  next
    case 3
    have "0 \<le> refraction_low e"
      using e 3 by (intro refraction_low_nonneg) simp_all
    then show ?thesis using e 3 by (simp add: refraction_0575_5)
  qed
qed

text \<open>
  C3 (as stated, refuted). The claim: the refraction model is continuous at the branch
  boundaries. At 85 degrees the second branch tends to more than 5 arcseconds from the left,
  while the first branch is 0 on the right.
\<close>

theorem refraction_jump_at_85_counterexample:
  "(refraction_arcsec \<longlongrightarrow> refraction_mid (tan (radians 85))) (at_left 85)
   \<and> (refraction_arcsec \<longlongrightarrow> 0) (at_right 85)
   \<and> 5 < refraction_mid (tan (radians 85))
   \<and> \<not> isCont refraction_arcsec 85"
proof -
  have "refraction_mid (tan (radians 85)) \<noteq> 0"
    using mid_at_85 by simp
  from limits_differ_not_cont [OF limits_at_85 this] limits_at_85 mid_at_85
  show ?thesis by simp
qed

text \<open>
  C3 (amended). For every elevation \<open>e > 0\<close> the refraction function returns a value that is
  at least 0. The piecewise model is not continuous at its branch boundaries: at 85 degrees
  the left limit exceeds 5 arcseconds and the right limit is 0; at 5 degrees the left limit
  is 574.625 and the right limit exceeds 576; at -0.575 degrees the left limit exceeds
  2069.74 and the right limit is below 2069.67.
\<close>

theorem refraction_nonneg_and_jumps:
  "(0 < e \<longrightarrow> (\<exists>r. atmospheric_refraction e = Inr r \<and> 0 \<le> r))
   \<and> (\<exists>l. (refraction_arcsec \<longlongrightarrow> l) (at_left 85) \<and> 5 < l)
   \<and> (refraction_arcsec \<longlongrightarrow> 0) (at_right 85)
   \<and> \<not> isCont refraction_arcsec 85
   \<and> (refraction_arcsec \<longlongrightarrow> 574.625) (at_left 5)
   \<and> (\<exists>r. (refraction_arcsec \<longlongrightarrow> r) (at_right 5) \<and> 576 < r)
   \<and> \<not> isCont refraction_arcsec 5
   \<and> (\<exists>l. (refraction_arcsec \<longlongrightarrow> l) (at_left (- 0.575)) \<and> 2069.74 < l)
   \<and> (\<exists>r. (refraction_arcsec \<longlongrightarrow> r) (at_right (- 0.575)) \<and> r < 2069.67)
   \<and> \<not> isCont refraction_arcsec (- 0.575)"
proof -
  have n85: "refraction_mid (tan (radians 85)) \<noteq> 0"
    using mid_at_85 by simp
  have n5: "refraction_low 5 \<noteq> refraction_mid (tan (radians 5))"
    using mid_at_5 low_at_5 by simp
  have n0: "- 20.772 / tan (radians (- 0.575)) \<noteq> refraction_low (- 0.575)"
  proof -
    have "A < x \<Longrightarrow> y < B \<Longrightarrow> B \<le> A \<Longrightarrow> x \<noteq> y" for x y A B :: real
      by linarith
    from this [OF below_at_minus_0575 low_at_minus_0575] show ?thesis by simp
  qed
  have c85: "\<not> isCont refraction_arcsec 85"
    by (rule limits_differ_not_cont [OF limits_at_85 n85])
  have c5: "\<not> isCont refraction_arcsec 5"
    by (rule limits_differ_not_cont [OF limits_at_5 n5])
  have c0: "\<not> isCont refraction_arcsec (- 0.575)"
    by (rule limits_differ_not_cont [OF limits_at_minus_0575 n0])
  have l5: "(refraction_arcsec \<longlongrightarrow> 574.625) (at_left 5)"
    using limits_at_5(1) by (simp only: low_at_5)
  show ?thesis
    using refraction_nonneg [of e] limits_at_85 mid_at_85 c85 l5 limits_at_5(2) mid_at_5 c5
      limits_at_minus_0575 below_at_minus_0575 low_at_minus_0575 c0
    by blast
qed

theorem refraction_nonneg_and_jumps_witness:
  "(0::real) < 3
   \<and> atmospheric_refraction 3 = Inr 823.261
   \<and> (\<exists>r. atmospheric_refraction 3 = Inr r \<and> 0 \<le> r)
   \<and> \<not> isCont refraction_arcsec 5"
proof -
  have "atmospheric_refraction 3 = Inr 823.261"
    by (simp add: atmospheric_refraction_def)
  with refraction_nonneg_and_jumps [of 3] show ?thesis by simp
qed

subsection \<open>Shade coverage\<close>



lemma shadow_dimensions_value:
  assumes "0 < sin (radians e)"
  shows "shadow_dimensions height width tilt e az_s az_b
       = Inr ((height * cos (radians tilt) * (cos (radians e) / sin (radians e) + 1))
              * (width * cos (radians (az_b - az_s))))"
proof -
  have e: "e \<noteq> 0" using assms by (auto simp: radians_def)
  have s: "sin (radians e) \<noteq> 0" using assms by simp
  have "(width + height / 2 * cos (radians tilt)) * cos (radians e) / sin (radians e)
          - (width - height / 2 * cos (radians tilt)) * cos (radians e) / sin (radians e)
          + height * cos (radians tilt)
        = height * cos (radians tilt) * (cos (radians e) / sin (radians e) + 1)"
    using s by (simp add: field_simps)
  then show ?thesis
    using e s by (simp add: shadow_dimensions_def div_by_tan_def Let_def)
qed


lemma shade_coverage_unfold:
  assumes "mk_datetime y mo d ((h - tz) mod 24) mi 0 = Inr dt"
    and "sky lat lon dt = (el, az)"
    and "solar_position_adj el = Inr v"
    and "shadow_dimensions height width tilt v (180 - az) (azimuth_blume (180 - az) max_rotation)
           = Inr area"
    and "ground_area \<noteq> 0"
  shows "shade_coverage sky lat lon y ground_area height width tilt h max_rotation tz mo d mi
           = Inr (min 1 (area / ground_area))"
  using assms by (simp add: shade_coverage_def Let_def)








subsection \<open>Days with few samples\<close>

lemma shade_coverage_returns:
  assumes dt: "mk_datetime y mo d ((h - tz) mod 24) mi 0 = Inr dt" and g: "ground_area \<noteq> 0"
  shows "\<exists>c. shade_coverage sky lat lon y ground_area height width tilt h max_rotation tz mo d mi
               = Inr c"
proof -
  obtain el az where s: "sky lat lon dt = (el, az)" by (cases "sky lat lon dt")
  obtain v where v: "solar_position_adj el = Inr v"
    using solar_position_adj_returns [of el] by (elim exE)
  have "0.0000000001 \<le> v \<and> v \<noteq> 0" using v by (rule solar_position_adj_floor)
  then have f2: "v \<noteq> 0" by (rule conjunct2)
  obtain area where area: "shadow_dimensions height width tilt v (180 - az)
             (azimuth_blume (180 - az) max_rotation) = Inr area"
    using shadow_dimensions_returns [OF f2, of height width tilt "180 - az"
        "azimuth_blume (180 - az) max_rotation"] by (elim exE)
  have "shade_coverage sky lat lon y ground_area height width tilt h max_rotation tz mo d mi
           = Inr (min 1 (area / ground_area))"
    by (rule shade_coverage_unfold [where sky = sky and lat = lat and lon = lon, OF dt s v area g])
  then show ?thesis by (rule exI)
qed

lemma shade_coverage_full:
  assumes dt: "mk_datetime y mo d ((h - tz) mod 24) mi 0 = Inr dt"
  shows "shade_coverage (fixed_sun 86 180) lat lon y 1 22.3 18.3 0 h 45 tz mo d mi = Inr 1"
proof -
  have s: "0 < sin (radians 86)" by (rule sin_radians_pos) simp_all
  have c: "0 < cos (radians 86)" by (rule cos_radians_pos) simp_all
  have q: "1 \<le> cos (radians 86) / sin (radians 86) + 1"
    using s c by simp
  have "22.3 * 1 \<le> 22.3 * (cos (radians 86) / sin (radians 86) + 1)"
    using q by (intro mult_left_mono) simp_all
  then have "1 \<le> 22.3 * (cos (radians 86) / sin (radians 86) + 1)" by simp
  then have "1 * 1 \<le> 22.3 * (cos (radians 86) / sin (radians 86) + 1) * 18.3"
    by (intro mult_mono) simp_all
  then have big: "1 \<le> 22.3 * (cos (radians 86) / sin (radians 86) + 1) * 18.3" by simp
  have adj: "solar_position_adj 86 = Inr 86"
    by (simp add: solar_position_adj_def refraction_above_85 Let_def)
  have blume: "azimuth_blume (180 - 180) 45 = 0"
    by (simp add: azimuth_blume_def)
  have r0: "cos (radians 0) = 1" by (simp add: radians_def)
  have sh: "shadow_dimensions 22.3 18.3 0 86 (180 - 180) (azimuth_blume (180 - 180) 45)
      = Inr (22.3 * (cos (radians 86) / sin (radians 86) + 1) * 18.3)"
    unfolding blume shadow_dimensions_value [OF s] by (simp add: r0)
  have sky: "fixed_sun 86 180 lat lon dt = (86, 180)"
    by (simp add: fixed_sun_def)
  have g: "(1::real) \<noteq> 0" by simp
  have "shade_coverage (fixed_sun 86 180) lat lon y 1 22.3 18.3 0 h 45 tz mo d mi
      = Inr (min 1 (22.3 * (cos (radians 86) / sin (radians 86) + 1) * 18.3 / 1))"
    by (rule shade_coverage_unfold [where sky = "fixed_sun 86 180" and lat = lat and lon = lon,
          OF dt sky adj sh g])
  also have "min 1 (22.3 * (cos (radians 86) / sin (radians 86) + 1) * 18.3 / 1) = 1"
    using big by (simp only: div_by_1 min_def if_True)
  finally show ?thesis .
qed

lemma midnight_new_year: "midnight 2022 1 1 = Inr 63776592000000000"
  by code_simp

lemma find_closest_single:
  "find_closest_sunrise_sunset tz [pair] target_date = Inr pair"
  by (simp add: find_closest_sunrise_sunset_def py_min_def)


lemma sample_times:
  "hour_of \<lparr>wall = 63776613660000000, utcoffset = 0\<rparr> = 6"
  "minute_of \<lparr>wall = 63776613660000000, utcoffset = 0\<rparr> = 1"
  "hour_of \<lparr>wall = 63776617260000000, utcoffset = 0\<rparr> = 7"
  "minute_of \<lparr>wall = 63776617260000000, utcoffset = 0\<rparr> = 1"
  "hour_of \<lparr>wall = 63776620860000000, utcoffset = 0\<rparr> = 8"
  "minute_of \<lparr>wall = 63776620860000000, utcoffset = 0\<rparr> = 1"
  "second_of \<lparr>wall = 63776613630000000, utcoffset = 0\<rparr> = 30"
  by (simp_all add: hour_of_def minute_of_def second_of_def)

lemma mk_datetime_samples:
  "\<exists>dt. mk_datetime 2022 1 1 ((6 - 0) mod 24) 1 0 = Inr dt"
  "\<exists>dt. mk_datetime 2022 1 1 ((7 - 0) mod 24) 1 0 = Inr dt"
  "\<exists>dt. mk_datetime 2022 1 1 ((8 - 0) mod 24) 1 0 = Inr dt"
  "\<exists>dt. mk_datetime 2022 1 1 ((6 - 0) mod 24) 0 0 = Inr dt"
  by (simp_all add: mk_datetime_def days_in_month_def)

lemma full_samples:
  "shade_coverage (fixed_sun 86 180) 42 (- 120) 2022 1 22.3 18.3 0 6 45 0 1 1 1 = Inr 1"
  "shade_coverage (fixed_sun 86 180) 42 (- 120) 2022 1 22.3 18.3 0 7 45 0 1 1 1 = Inr 1"
  "shade_coverage (fixed_sun 86 180) 42 (- 120) 2022 1 22.3 18.3 0 8 45 0 1 1 1 = Inr 1"
  "shade_coverage (fixed_sun 86 180) 42 (- 120) 2022 1 22.3 18.3 0 6 45 0 1 1 0 = Inr 1"
  using mk_datetime_samples by (auto intro: shade_coverage_full)




lemma hourly_samples_single: "hourly_samples s s = [s]"
proof -
  have "\<not> instant (plus_timedelta s 3600000000) \<le> instant s"
    by (simp add: instant_def plus_timedelta_def)
  then have "hourly_samples (plus_timedelta s 3600000000) s = []"
    by (rule hourly_samples_Nil)
  moreover have "hourly_samples s s = s # hourly_samples (plus_timedelta s 3600000000) s"
    by (rule hourly_samples_Cons) simp
  ultimately show ?thesis by simp
qed

lemma round_exact_minute:
  assumes "wall t mod 60000000 = 0"
  shows "round_up_minute t = t" "round_down_minute t = t"
proof -
  show "round_up_minute t = t"
    using assms by (simp add: round_up_minute_def)
  have "wall t div 60000000 * 60000000 = wall t"
    using assms by (metis add.right_neutral div_mult_mod_eq)
  then show "round_down_minute t = t"
    by (simp add: round_down_minute_def)
qed

lemma round_up_after_round_down:
  assumes "wall t mod 60000000 \<noteq> 0"
  shows "instant (round_down_minute t) < instant (round_up_minute t)"
  using assms by (simp add: round_up_minute_def round_down_minute_def instant_def algebra_simps)

lemma iterate_no_samples:
  assumes "midnight y mo d = Inr target_date"
    and "find_closest_sunrise_sunset tz sunrise_sunset_pairs target_date = Inr (sunrise, sunset)"
    and "instant (round_down_minute sunset) < instant (round_up_minute sunrise)"
  shows "iterate_sunrise_to_sunset sky tz sunrise_sunset_pairs mo d lat lon y ground_area height
           width tilt max_rotation timezone = Inr 0"
proof -
  have "\<not> instant (round_up_minute sunrise) \<le> instant (round_down_minute sunset)"
    using assms(3) by simp
  then have "hourly_samples (round_up_minute sunrise) (round_down_minute sunset) = []"
    by (rule hourly_samples_Nil)
  then show ?thesis
    unfolding iterate_as_collect [OF assms(1,2)] by (simp add: mean_def)
qed

lemma iterate_one_sample:
  assumes "midnight y mo d = Inr target_date"
    and "find_closest_sunrise_sunset tz sunrise_sunset_pairs target_date = Inr (s, s)"
    and "wall s mod 60000000 = 0"
  shows "iterate_sunrise_to_sunset sky tz sunrise_sunset_pairs mo d lat lon y ground_area height
           width tilt max_rotation timezone
         = shade_coverage sky lat lon y ground_area height width tilt (hour_of s) max_rotation
             timezone mo d (minute_of s)"
  unfolding iterate_as_collect [OF assms(1,2)] round_exact_minute [OF assms(3)]
    hourly_samples_single
  by (simp add: mean_def split: sum.splits)

lemma mk_datetime_of_day:
  assumes "midnight y mo d = Inr target_date"
  shows "\<exists>dt. mk_datetime y mo d ((hour_of s - tz) mod 24) (minute_of s) 0 = Inr dt"
proof -
  have "0 \<le> minute_of s" "minute_of s < 60" "0 \<le> (hour_of s - tz) mod 24"
    "(hour_of s - tz) mod 24 < 24"
    by (simp_all add: minute_of_def)
  then show ?thesis
    using assms by (auto simp: midnight_def mk_datetime_def split: if_splits)
qed


text \<open>
  C4 (as stated, refuted). The claim: on a day whose matched sunrise equals its sunset the
  aggregator returns 0. With sunrise and sunset both at 06:00:00 exactly, the rounded
  sunrise equals the rounded sunset, the loop takes one sample at 06:00, and the result is
  that sample's coverage, here 1.
\<close>

theorem sunrise_equals_sunset_counterexample:
  "midnight 2022 1 1 = Inr 63776592000000000
   \<and> find_closest_sunrise_sunset (fixed_offset 0)
        [(\<lparr>wall = 63776613600000000, utcoffset = 0\<rparr>, \<lparr>wall = 63776613600000000, utcoffset = 0\<rparr>)]
        63776592000000000
       = Inr (\<lparr>wall = 63776613600000000, utcoffset = 0\<rparr>, \<lparr>wall = 63776613600000000, utcoffset = 0\<rparr>)
   \<and> iterate_sunrise_to_sunset (fixed_sun 86 180) (fixed_offset 0)
        [(\<lparr>wall = 63776613600000000, utcoffset = 0\<rparr>, \<lparr>wall = 63776613600000000, utcoffset = 0\<rparr>)]
        1 1 42 (- 120) 2022 1 22.3 18.3 0 45 0 = Inr 1
   \<and> (Inr 1 :: py_error + real) \<noteq> Inr 0"
proof -
  have w: "wall \<lparr>wall = 63776613600000000, utcoffset = 0\<rparr> mod 60000000 = 0"
    by simp
  have t: "hour_of \<lparr>wall = 63776613600000000, utcoffset = 0\<rparr> = 6"
    "minute_of \<lparr>wall = 63776613600000000, utcoffset = 0\<rparr> = 0"
    by (simp_all add: hour_of_def minute_of_def)
  have "iterate_sunrise_to_sunset (fixed_sun 86 180) (fixed_offset 0)
        [(\<lparr>wall = 63776613600000000, utcoffset = 0\<rparr>, \<lparr>wall = 63776613600000000, utcoffset = 0\<rparr>)]
        1 1 42 (- 120) 2022 1 22.3 18.3 0 45 0 = Inr 1"
    unfolding iterate_one_sample [OF midnight_new_year find_closest_single w] t
    by (rule full_samples(4))
  then show ?thesis
    by (intro conjI midnight_new_year find_closest_single) simp_all
qed

text \<open>
  C4 (amended). On a day for which no hourly sample falls in range (the rounded sunset is
  before the rounded sunrise) the aggregator returns 0. When the matched sunrise equals
  the sunset and is not on a whole minute, that is the case, and the aggregator returns 0.
  When the matched sunrise equals the sunset and is on a whole minute, exactly one sample
  is taken at that minute and the aggregator returns what \<^verbatim>\<open>shade_coverage\<close> returns for
  it. In both cases, for a ground area that is not 0, the aggregator returns a value and
  raises no error.
\<close>

theorem sunrise_equals_sunset_result:
  assumes m: "midnight y mo d = Inr target_date"
    and f: "find_closest_sunrise_sunset tz sunrise_sunset_pairs target_date = Inr (sunrise, sunset)"
  shows "(instant (replace_second_microsecond sunset)
            < instant (plus_timedelta (replace_second_microsecond sunrise)
                 (if second_of sunrise \<noteq> 0 \<or> microsecond_of sunrise \<noteq> 0 then 60000000 else 0))
          \<longrightarrow> iterate_sunrise_to_sunset sky tz sunrise_sunset_pairs mo d lat lon y ground_area
                height width tilt max_rotation timezone = Inr 0)
       \<and> (sunrise = sunset \<and> (second_of sunrise \<noteq> 0 \<or> microsecond_of sunrise \<noteq> 0)
          \<longrightarrow> iterate_sunrise_to_sunset sky tz sunrise_sunset_pairs mo d lat lon y ground_area
                height width tilt max_rotation timezone = Inr 0)
       \<and> (sunrise = sunset \<and> second_of sunrise = 0 \<and> microsecond_of sunrise = 0
          \<longrightarrow> iterate_sunrise_to_sunset sky tz sunrise_sunset_pairs mo d lat lon y ground_area
                height width tilt max_rotation timezone
              = shade_coverage sky lat lon y ground_area height width tilt (hour_of sunrise)
                  max_rotation timezone mo d (minute_of sunrise))
       \<and> (sunrise = sunset \<and> ground_area \<noteq> 0
          \<longrightarrow> (\<exists>v. iterate_sunrise_to_sunset sky tz sunrise_sunset_pairs mo d lat lon y
                     ground_area height width tilt max_rotation timezone = Inr v))"
proof -
  let ?result = "iterate_sunrise_to_sunset sky tz sunrise_sunset_pairs mo d lat lon y ground_area
                height width tilt max_rotation timezone"
  have none: "?result = Inr 0"
    if "instant (round_down_minute sunset) < instant (round_up_minute sunrise)"
    using m f that by (rule iterate_no_samples)
  have inexact: "?result = Inr 0" if "sunrise = sunset" "wall sunrise mod 60000000 \<noteq> 0"
  proof -
    have "instant (round_down_minute sunrise) < instant (round_up_minute sunrise)"
      using that(2) by (rule round_up_after_round_down)
    then have "instant (round_down_minute sunset) < instant (round_up_minute sunrise)"
      using that(1) by simp
    then show ?thesis by (rule none)
  qed
  have exact: "?result = shade_coverage sky lat lon y ground_area height width tilt
                  (hour_of sunrise) max_rotation timezone mo d (minute_of sunrise)"
    if "sunrise = sunset" "wall sunrise mod 60000000 = 0"
  proof -
    have "find_closest_sunrise_sunset tz sunrise_sunset_pairs target_date = Inr (sunrise, sunrise)"
      using f that(1) by simp
    from iterate_one_sample [OF m this that(2)] show ?thesis .
  qed
  have returns: "\<exists>v. ?result = Inr v" if "sunrise = sunset" "ground_area \<noteq> 0"
  proof (cases "wall sunrise mod 60000000 = 0")
    case True
    obtain dt where "mk_datetime y mo d ((hour_of sunrise - timezone) mod 24) (minute_of sunrise) 0
        = Inr dt"
      using mk_datetime_of_day [OF m, of sunrise timezone] by (elim exE)
    from shade_coverage_returns [OF this that(2)] show ?thesis
      unfolding exact [OF that(1) True] .
  next
    case False
    with that(1) have "?result = Inr 0" by (rule inexact)
    then show ?thesis by (rule exI)
  qed
  have 1: "instant (replace_second_microsecond sunset)
            < instant (plus_timedelta (replace_second_microsecond sunrise)
                 (if second_of sunrise \<noteq> 0 \<or> microsecond_of sunrise \<noteq> 0 then 60000000 else 0))
          \<longrightarrow> ?result = Inr 0"
    unfolding sunrise_rounded_is_round_up unfolding replace_is_round_down
    using none by (rule impI)
  have 2: "sunrise = sunset \<and> (second_of sunrise \<noteq> 0 \<or> microsecond_of sunrise \<noteq> 0)
          \<longrightarrow> ?result = Inr 0"
    unfolding second_microsecond_zero using inexact by (intro impI) (elim conjE)
  have "(\<not> (second_of sunrise \<noteq> 0 \<or> microsecond_of sunrise \<noteq> 0))
      = (\<not> wall sunrise mod 60000000 \<noteq> 0)"
    by (simp only: second_microsecond_zero)
  then have z: "(second_of sunrise = 0 \<and> microsecond_of sunrise = 0)
      \<longleftrightarrow> wall sunrise mod 60000000 = 0"
    by simp
  have 3: "sunrise = sunset \<and> second_of sunrise = 0 \<and> microsecond_of sunrise = 0
          \<longrightarrow> ?result = shade_coverage sky lat lon y ground_area height width tilt
                  (hour_of sunrise) max_rotation timezone mo d (minute_of sunrise)"
    unfolding z using exact by (intro impI) (elim conjE)
  have 4: "sunrise = sunset \<and> ground_area \<noteq> 0 \<longrightarrow> (\<exists>v. ?result = Inr v)"
    using returns by (intro impI) (elim conjE)
  show ?thesis
    by (intro conjI 1 2 3 4)
qed

theorem sunrise_equals_sunset_result_witness:
  "midnight 2022 1 1 = Inr 63776592000000000
   \<and> find_closest_sunrise_sunset (fixed_offset 0)
        [(\<lparr>wall = 63776613630000000, utcoffset = 0\<rparr>, \<lparr>wall = 63776613630000000, utcoffset = 0\<rparr>)]
        63776592000000000
       = Inr (\<lparr>wall = 63776613630000000, utcoffset = 0\<rparr>, \<lparr>wall = 63776613630000000, utcoffset = 0\<rparr>)
   \<and> second_of \<lparr>wall = 63776613630000000, utcoffset = 0\<rparr> \<noteq> 0
   \<and> iterate_sunrise_to_sunset (fixed_sun 86 180) (fixed_offset 0)
        [(\<lparr>wall = 63776613630000000, utcoffset = 0\<rparr>, \<lparr>wall = 63776613630000000, utcoffset = 0\<rparr>)]
        1 1 42 (- 120) 2022 1 22.3 18.3 0 45 0 = Inr 0"
proof -
  have a: "second_of \<lparr>wall = 63776613630000000, utcoffset = 0\<rparr> \<noteq> 0"
    by (simp add: sample_times)
  have f: "find_closest_sunrise_sunset (fixed_offset 0)
        [(\<lparr>wall = 63776613630000000, utcoffset = 0\<rparr>, \<lparr>wall = 63776613630000000, utcoffset = 0\<rparr>)]
        63776592000000000
       = Inr (\<lparr>wall = 63776613630000000, utcoffset = 0\<rparr>, \<lparr>wall = 63776613630000000, utcoffset = 0\<rparr>)"
    by (rule find_closest_single)
  note t = sunrise_equals_sunset_result [OF midnight_new_year f,
      where sky = "fixed_sun 86 180" and lat = 42 and lon = "- 120" and ground_area = 1
        and height = "22.3" and width = "18.3" and tilt = 0 and max_rotation = 45 and timezone = 0]
  have "iterate_sunrise_to_sunset (fixed_sun 86 180) (fixed_offset 0)
        [(\<lparr>wall = 63776613630000000, utcoffset = 0\<rparr>, \<lparr>wall = 63776613630000000, utcoffset = 0\<rparr>)]
        1 1 42 (- 120) 2022 1 22.3 18.3 0 45 0 = Inr 0"
    using t [THEN conjunct2, THEN conjunct1] a by simp
  then show ?thesis
    by (intro conjI midnight_new_year f a)
qed

subsection \<open>UTC timestamp of a sample\<close>









end
